theory Spec2Isabelle
  imports Main "HOL-Library.Word"
begin

section \<open>Shared memory\<close>

text \<open>
  A \<^verbatim>\<open>SharedArrayBuffer\<close> is a block of bytes that every agent (the main thread and
  each worker) sees by reference. The classes of \<^verbatim>\<open>mutex.js\<close> and
  \<^verbatim>\<open>counter-example1..3.js\<close> only ever look at it through a view of 4-byte elements
  (\<^verbatim>\<open>Int32Array\<close>, \<^verbatim>\<open>Uint32Array\<close>), so a buffer is its \<^verbatim>\<open>byteLength\<close> and the
  32-bit contents of its 4-byte elements. The buffers are those that
  \<^verbatim>\<open>new SharedArrayBuffer(n)\<close> creates, as \<^verbatim>\<open>main.js\<close> does: of fixed length.

  The world is the memory all agents share: the buffers, by address, and for every
  location (buffer, element index) the list of agents suspended there by
  \<^verbatim>\<open>Atomics.wait\<close>.
\<close>

type_synonym addr = nat
type_synonym agent = nat

record shared_array_buffer =
  byteLength :: nat
  elements :: "nat \<Rightarrow> 32 word"

record world =
  buffers :: "addr \<Rightarrow> shared_array_buffer"
  waiterList :: "addr \<Rightarrow> nat \<Rightarrow> agent list"

text \<open>
  The values a constructor can be handed (its parameter is documented as
  \<^verbatim>\<open>unknown\<close>): \<^verbatim>\<open>undefined\<close>, a shared buffer, a non-shared \<^verbatim>\<open>ArrayBuffer\<close> of some
  byte length, or anything else.
\<close>

datatype js_value = Undefined | SharedArrayBuffer addr | ArrayBuffer nat | OtherValue

text \<open>
  The exceptions of the program, one constructor per thrown value:
  \<^item> \<open>ExpectedSharedArrayBuffer\<close> is \<^verbatim>\<open>Error("Expected a 'SharedArrayBuffer'.")\<close>;
  \<^item> \<open>ExpectedAtLeastBytes n\<close> is \<^verbatim>\<open>Error(`Expected at least a ${n}-byte buffer.`)\<close>;
  \<^item> \<open>UnlockWhileNotHolding\<close> is
    \<^verbatim>\<open>Error("You can only unlock while holding the lock.")\<close>;
  \<^item> \<open>TypedArrayRangeError\<close> is the \<^verbatim>\<open>RangeError\<close> that the typed-array constructor of the
    language throws for a fixed-length buffer whose byte length is not a multiple of the
    element size.
  The spec calls the first two \<open>InvalidBuffer\<close> and the third \<open>NotHeld\<close>.
\<close>

datatype error =
    ExpectedSharedArrayBuffer
  | ExpectedAtLeastBytes nat
  | UnlockWhileNotHolding
  | TypedArrayRangeError

definition InvalidBuffer :: "error \<Rightarrow> bool" where
  "InvalidBuffer e = (case e of
      ExpectedSharedArrayBuffer \<Rightarrow> True
    | ExpectedAtLeastBytes n \<Rightarrow> True
    | _ \<Rightarrow> False)"

definition NotHeld :: "error \<Rightarrow> bool" where
  "NotHeld e = (e = UnlockWhileNotHolding)"

text \<open>
  What a call does in a single execution context: it returns a value, throws, or is
  suspended in \<^verbatim>\<open>Atomics.wait\<close> (with no other agent to wake it, and no timeout given,
  for ever). A call that never ends is the value \<open>None\<close> of the option type
  around it.
\<close>

datatype 'a outcome = Returns 'a | Throws error | Blocks

subsection \<open>Typed arrays\<close>

text \<open>
  The two kinds of view the program makes. \<^verbatim>\<open>new Int32Array(buffer)\<close> and
  \<^verbatim>\<open>new Uint32Array(buffer)\<close>, with no offset and no length: the language (ECMAScript,
  InitializeTypedArrayFromArrayBuffer) throws a \<^verbatim>\<open>RangeError\<close> when the byte length
  of a fixed-length buffer is not a multiple of the element size, and otherwise makes a
  view of \<open>byteLength div 4\<close> elements. An object of the classes below holds a view only
  after its constructor has found the buffer to have 4 bytes or more, so element 0, the
  only one the classes touch, is in range.
\<close>

datatype int32_array = Int32Array addr

datatype uint32_array = Uint32Array addr

definition Int32Array_BYTES_PER_ELEMENT :: nat where
  "Int32Array_BYTES_PER_ELEMENT = 4"

definition Uint32Array_BYTES_PER_ELEMENT :: nat where
  "Uint32Array_BYTES_PER_ELEMENT = 4"

definition new_Int32Array :: "addr \<Rightarrow> world \<Rightarrow> error + int32_array" where
  "new_Int32Array a w =
     (if byteLength (buffers w a) mod Int32Array_BYTES_PER_ELEMENT \<noteq> 0
      then Inl TypedArrayRangeError
      else Inr (Int32Array a))"

definition new_Uint32Array :: "addr \<Rightarrow> world \<Rightarrow> error + uint32_array" where
  "new_Uint32Array a w =
     (if byteLength (buffers w a) mod Uint32Array_BYTES_PER_ELEMENT \<noteq> 0
      then Inl TypedArrayRangeError
      else Inr (Uint32Array a))"

text \<open>
  The 32 bits of an element of a buffer. A \<^verbatim>\<open>Uint32Array\<close> reads them as an unsigned
  Number, an \<^verbatim>\<open>Int32Array\<close> in two's complement; writing a Number stores it modulo
  \<open>2 ^ 32\<close> (ToUint32 and ToInt32 keep the same 32 bits). Numbers are modelled as
  integers: the program computes with integer-valued Numbers only, and on those the
  arithmetic of doubles is exact as long as the magnitudes stay within \<open>2 ^ 53\<close>.
\<close>

definition get_bits :: "addr \<Rightarrow> nat \<Rightarrow> world \<Rightarrow> 32 word" where
  "get_bits a i w = elements (buffers w a) i"

definition set_bits :: "addr \<Rightarrow> nat \<Rightarrow> 32 word \<Rightarrow> world \<Rightarrow> world" where
  "set_bits a i x w =
     w\<lparr>buffers := (buffers w)(a := (buffers w a)\<lparr>elements := (elements (buffers w a))(i := x)\<rparr>)\<rparr>"

definition ToUint32 :: "int \<Rightarrow> 32 word" where
  "ToUint32 n = word_of_int n"

definition ToInt32 :: "int \<Rightarrow> 32 word" where
  "ToInt32 n = word_of_int n"

text \<open>The plain accesses \<^verbatim>\<open>view[i]\<close> and \<^verbatim>\<open>view[i] = n\<close> of a \<^verbatim>\<open>Uint32Array\<close>.\<close>

fun get_element :: "uint32_array \<Rightarrow> nat \<Rightarrow> world \<Rightarrow> int" where
  "get_element (Uint32Array a) i w = uint (get_bits a i w)"

fun set_element :: "uint32_array \<Rightarrow> nat \<Rightarrow> int \<Rightarrow> world \<Rightarrow> world" where
  "set_element (Uint32Array a) i n w = set_bits a i (ToUint32 n) w"

subsection \<open>Atomics\<close>

text \<open>
  Each function of \<^verbatim>\<open>Atomics\<close> is one indivisible step on the world. The program uses
  \<^verbatim>\<open>load\<close>, \<^verbatim>\<open>add\<close> and \<^verbatim>\<open>sub\<close> on a \<^verbatim>\<open>Uint32Array\<close> and \<^verbatim>\<open>compareExchange\<close>,
  \<^verbatim>\<open>wait\<close> and \<^verbatim>\<open>notify\<close> on an \<^verbatim>\<open>Int32Array\<close>. \<^verbatim>\<open>add\<close>, \<^verbatim>\<open>sub\<close> and
  \<^verbatim>\<open>compareExchange\<close> return the old value of the element.
\<close>

fun Atomics_load :: "uint32_array \<Rightarrow> nat \<Rightarrow> world \<Rightarrow> int" where
  "Atomics_load (Uint32Array a) i w = uint (get_bits a i w)"

fun Atomics_add :: "uint32_array \<Rightarrow> nat \<Rightarrow> int \<Rightarrow> world \<Rightarrow> int \<times> world" where
  "Atomics_add (Uint32Array a) i n w =
     (let old = get_bits a i w in (uint old, set_bits a i (old + ToUint32 n) w))"

fun Atomics_sub :: "uint32_array \<Rightarrow> nat \<Rightarrow> int \<Rightarrow> world \<Rightarrow> int \<times> world" where
  "Atomics_sub (Uint32Array a) i n w =
     (let old = get_bits a i w in (uint old, set_bits a i (old - ToUint32 n) w))"

fun Atomics_compareExchange ::
  "int32_array \<Rightarrow> nat \<Rightarrow> int \<Rightarrow> int \<Rightarrow> world \<Rightarrow> int \<times> world" where
  "Atomics_compareExchange (Int32Array a) i expected replacement w =
     (let old = get_bits a i w
      in (sint old,
          if old = ToInt32 expected then set_bits a i (ToInt32 replacement) w else w))"

text \<open>
  \<^verbatim>\<open>Atomics.wait(view, i, n)\<close> with no timeout, called by the agent \<open>self\<close>, a
  worker (an agent that is allowed to block): if the
  element does not hold \<open>n\<close> the call returns \<^verbatim>\<open>"not-equal"\<close> at once; if it does, the
  agent is appended to the waiter list of the location and suspended.
  \<^verbatim>\<open>Atomics.notify(view, i, count)\<close> removes the first \<open>count\<close> agents of the waiter
  list (all of them, if there are fewer), which wakes them, and returns them.
\<close>

datatype wait_result = NotEqual | Suspended

fun Atomics_wait ::
  "int32_array \<Rightarrow> nat \<Rightarrow> int \<Rightarrow> agent \<Rightarrow> world \<Rightarrow> wait_result \<times> world" where
  "Atomics_wait (Int32Array a) i n self w =
     (if get_bits a i w = ToInt32 n
      then (Suspended,
            w\<lparr>waiterList := (waiterList w)(a := (waiterList w a)(i := waiterList w a i @ [self]))\<rparr>)
      else (NotEqual, w))"

fun Atomics_notify :: "int32_array \<Rightarrow> nat \<Rightarrow> nat \<Rightarrow> world \<Rightarrow> agent list \<times> world" where
  "Atomics_notify (Int32Array a) i count w =
     (take count (waiterList w a i),
      w\<lparr>waiterList := (waiterList w)(a := (waiterList w a)(i := drop count (waiterList w a i)))\<rparr>)"

section \<open>The mutex (mutex.js)\<close>

datatype mutex = Mutex int32_array

fun Mutex_bufferView :: "mutex \<Rightarrow> int32_array" where
  "Mutex_bufferView (Mutex view) = view"

definition LOCKED :: int where
  "LOCKED = 1"

definition UNLOCKED :: int where
  "UNLOCKED = 0"

definition Mutex_LOCATION :: nat where
  "Mutex_LOCATION = 0"

text \<open>
  \<^verbatim>\<open>#ensureSharedArrayBuffer(value)\<close> throws or returns nothing; the model returns the
  buffer that the \<^verbatim>\<open>instanceof\<close> check has found \<open>value\<close> to be.
\<close>

definition Mutex_ensureSharedArrayBuffer :: "js_value \<Rightarrow> world \<Rightarrow> error + addr" where
  "Mutex_ensureSharedArrayBuffer v w =
     (case v of
        SharedArrayBuffer a \<Rightarrow>
          (let MIN_BYTES = Int32Array_BYTES_PER_ELEMENT
           in if byteLength (buffers w a) < MIN_BYTES then Inl (ExpectedAtLeastBytes MIN_BYTES)
              else Inr a)
      | _ \<Rightarrow> Inl ExpectedSharedArrayBuffer)"

definition Mutex_new :: "js_value \<Rightarrow> world \<Rightarrow> error + mutex" where
  "Mutex_new sharedBuffer w =
     (case Mutex_ensureSharedArrayBuffer sharedBuffer w of
        Inl e \<Rightarrow> Inl e
      | Inr a \<Rightarrow>
          (case new_Int32Array a w of
             Inl e \<Rightarrow> Inl e
           | Inr view \<Rightarrow> Inr (Mutex view)))"

definition tryGetLock :: "mutex \<Rightarrow> world \<Rightarrow> bool \<times> world" where
  "tryGetLock m w =
     (let (previousState, w') =
            Atomics_compareExchange (Mutex_bufferView m) Mutex_LOCATION UNLOCKED LOCKED w
      in (previousState = UNLOCKED, w'))"

definition waitIfLocked :: "mutex \<Rightarrow> agent \<Rightarrow> world \<Rightarrow> wait_result \<times> world" where
  "waitIfLocked m self w = Atomics_wait (Mutex_bufferView m) Mutex_LOCATION LOCKED self w"

text \<open>
  \<^verbatim>\<open>lock()\<close> as one agent runs it with no other agent running: the \<^verbatim>\<open>while (true)\<close>
  loop. Suspended in \<^verbatim>\<open>Atomics.wait\<close> the agent stays suspended, since nobody is there
  to notify it.
\<close>

partial_function (option) lock :: "mutex \<Rightarrow> agent \<Rightarrow> world \<Rightarrow> (unit outcome \<times> world) option" where
  "lock m self w =
     (let (acquired, w') = tryGetLock m w
      in if acquired then Some (Returns (), w')
         else (let (r, w'') = waitIfLocked m self w'
               in if r = Suspended then Some (Blocks, w'')
                  else lock m self w''))"

definition tryUnlock :: "mutex \<Rightarrow> world \<Rightarrow> bool \<times> world" where
  "tryUnlock m w =
     (let (previousState, w') =
            Atomics_compareExchange (Mutex_bufferView m) Mutex_LOCATION LOCKED UNLOCKED w
      in (previousState = LOCKED, w'))"

definition notifyAgents :: "mutex \<Rightarrow> world \<Rightarrow> agent list \<times> world" where
  "notifyAgents m w =
     (let NUM_AGENTS_TO_NOTIFY = 1
      in Atomics_notify (Mutex_bufferView m) Mutex_LOCATION NUM_AGENTS_TO_NOTIFY w)"

text \<open>
  \<^verbatim>\<open>unlock()\<close>. Besides the outcome and the world the model returns the agents that the
  call has woken (the source drops the count that \<^verbatim>\<open>Atomics.notify\<close> returns).
\<close>

definition unlock :: "mutex \<Rightarrow> world \<Rightarrow> unit outcome \<times> agent list \<times> world" where
  "unlock m w =
     (let (released, w') = tryUnlock m w
      in if \<not> released then (Throws UnlockWhileNotHolding, [], w')
         else (let (woken, w'') = notifyAgents m w' in (Returns (), woken, w'')))"

text \<open>
  \<^verbatim>\<open>lock()\<close> among other agents, step by step. The agent is about to call
  \<^verbatim>\<open>#tryGetLock\<close>, about to call \<^verbatim>\<open>#waitIfLocked\<close>, suspended inside
  \<^verbatim>\<open>Atomics.wait\<close>, or has returned. Its own steps are the two atomic calls; the step
  out of \<open>InWait\<close> is its waking up (by a notification, which has taken it off the
  waiter list, or for any other reason), after which the loop goes round to
  \<^verbatim>\<open>#tryGetLock\<close>.
\<close>

datatype lock_pc = AtTryGetLock | AtWaitIfLocked | InWait | LockReturned

fun lock_step :: "mutex \<Rightarrow> agent \<Rightarrow> lock_pc \<Rightarrow> world \<Rightarrow> lock_pc \<times> world" where
  "lock_step m self AtTryGetLock w =
     (let (acquired, w') = tryGetLock m w
      in (if acquired then LockReturned else AtWaitIfLocked, w'))"
| "lock_step m self AtWaitIfLocked w =
     (let (r, w') = waitIfLocked m self w
      in (if r = Suspended then InWait else AtTryGetLock, w'))"
| "lock_step m self InWait w = (AtTryGetLock, w)"
| "lock_step m self LockReturned w = (LockReturned, w)"

text \<open>
  A run of \<^verbatim>\<open>lock()\<close> under interference: before each step of the agent the other
  agents change the world in any way (one function per step); the run stops when the
  call has returned.
\<close>

fun lock_run ::
  "mutex \<Rightarrow> agent \<Rightarrow> (world \<Rightarrow> world) list \<Rightarrow> lock_pc \<Rightarrow> world \<Rightarrow> lock_pc \<times> world" where
  "lock_run m self [] pc w = (pc, w)"
| "lock_run m self (others # rest) pc w =
     (if pc = LockReturned then (pc, w)
      else (let (pc', w') = lock_step m self pc (others w) in lock_run m self rest pc' w'))"

text \<open>What the lock slot holds, and who is suspended on it.\<close>

definition lock_slot :: "mutex \<Rightarrow> world \<Rightarrow> int" where
  "lock_slot m w = (case Mutex_bufferView m of Int32Array a \<Rightarrow> sint (get_bits a Mutex_LOCATION w))"

definition lock_waiters :: "mutex \<Rightarrow> world \<Rightarrow> agent list" where
  "lock_waiters m w = (case Mutex_bufferView m of Int32Array a \<Rightarrow> waiterList w a Mutex_LOCATION)"

section \<open>The counters (counter-example1.js, counter-example2.js, counter-example3.js)\<close>

text \<open>
  The three classes are all called \<^verbatim>\<open>Counter\<close>; the model numbers them by their example.
  Each has the same \<^verbatim>\<open>#LOCATION = 0\<close> and the same \<^verbatim>\<open>#ensureSharedArrayBuffer\<close>, which
  are modelled once.
\<close>

definition Counter_LOCATION :: nat where
  "Counter_LOCATION = 0"

definition Counter_ensureSharedArrayBuffer :: "js_value \<Rightarrow> world \<Rightarrow> error + addr" where
  "Counter_ensureSharedArrayBuffer v w =
     (case v of
        SharedArrayBuffer a \<Rightarrow>
          (let MIN_BYTES = Uint32Array_BYTES_PER_ELEMENT
           in if byteLength (buffers w a) < MIN_BYTES then Inl (ExpectedAtLeastBytes MIN_BYTES)
              else Inr a)
      | _ \<Rightarrow> Inl ExpectedSharedArrayBuffer)"

subsection \<open>Example 1: no synchronisation\<close>

datatype counter1 = Counter1 uint32_array

fun Counter1_bufferView :: "counter1 \<Rightarrow> uint32_array" where
  "Counter1_bufferView (Counter1 view) = view"

definition Counter1_new :: "js_value \<Rightarrow> world \<Rightarrow> error + counter1" where
  "Counter1_new sharedBuffer w =
     (case Counter_ensureSharedArrayBuffer sharedBuffer w of
        Inl e \<Rightarrow> Inl e
      | Inr a \<Rightarrow>
          (case new_Uint32Array a w of
             Inl e \<Rightarrow> Inl e
           | Inr view \<Rightarrow> Inr (Counter1 view)))"

definition Counter1_value :: "counter1 \<Rightarrow> world \<Rightarrow> int" where
  "Counter1_value c w = get_element (Counter1_bufferView c) Counter_LOCATION w"

definition Counter1_increment :: "counter1 \<Rightarrow> int \<Rightarrow> world \<Rightarrow> world" where
  "Counter1_increment c v w =
     set_element (Counter1_bufferView c) Counter_LOCATION
       (get_element (Counter1_bufferView c) Counter_LOCATION w + v) w"

definition Counter1_decrement :: "counter1 \<Rightarrow> int \<Rightarrow> world \<Rightarrow> world" where
  "Counter1_decrement c v w = Counter1_increment c (- v) w"

subsection \<open>Example 2: Atomics\<close>

datatype counter2 = Counter2 uint32_array

fun Counter2_bufferView :: "counter2 \<Rightarrow> uint32_array" where
  "Counter2_bufferView (Counter2 view) = view"

definition Counter2_new :: "js_value \<Rightarrow> world \<Rightarrow> error + counter2" where
  "Counter2_new sharedBuffer w =
     (case Counter_ensureSharedArrayBuffer sharedBuffer w of
        Inl e \<Rightarrow> Inl e
      | Inr a \<Rightarrow>
          (case new_Uint32Array a w of
             Inl e \<Rightarrow> Inl e
           | Inr view \<Rightarrow> Inr (Counter2 view)))"

definition Counter2_value :: "counter2 \<Rightarrow> world \<Rightarrow> int" where
  "Counter2_value c w = Atomics_load (Counter2_bufferView c) Counter_LOCATION w"

definition Counter2_increment :: "counter2 \<Rightarrow> int \<Rightarrow> world \<Rightarrow> world" where
  "Counter2_increment c v w = snd (Atomics_add (Counter2_bufferView c) Counter_LOCATION v w)"

definition Counter2_decrement :: "counter2 \<Rightarrow> int \<Rightarrow> world \<Rightarrow> world" where
  "Counter2_decrement c v w = snd (Atomics_sub (Counter2_bufferView c) Counter_LOCATION v w)"

subsection \<open>Example 3: guarded by the mutex\<close>

datatype counter3 = Counter3 uint32_array mutex

fun Counter3_bufferView :: "counter3 \<Rightarrow> uint32_array" where
  "Counter3_bufferView (Counter3 view m) = view"

fun Counter3_mutex :: "counter3 \<Rightarrow> mutex" where
  "Counter3_mutex (Counter3 view m) = m"

definition Counter3_new :: "js_value \<Rightarrow> js_value \<Rightarrow> world \<Rightarrow> error + counter3" where
  "Counter3_new sharedCounterBuffer sharedMutexBuffer w =
     (case Counter_ensureSharedArrayBuffer sharedCounterBuffer w of
        Inl e \<Rightarrow> Inl e
      | Inr a \<Rightarrow>
          (case new_Uint32Array a w of
             Inl e \<Rightarrow> Inl e
           | Inr view \<Rightarrow>
               (case Mutex_new sharedMutexBuffer w of
                  Inl e \<Rightarrow> Inl e
                | Inr m \<Rightarrow> Inr (Counter3 view m))))"

text \<open>
  Statements in sequence: the second runs, on the world the first has left, only if the
  first returns.
\<close>

definition and_then ::
  "('a outcome \<times> world) option \<Rightarrow> ('a \<Rightarrow> world \<Rightarrow> ('b outcome \<times> world) option)
     \<Rightarrow> ('b outcome \<times> world) option" where
  "and_then r k =
     (case r of
        None \<Rightarrow> None
      | Some (Returns x, w) \<Rightarrow> k x w
      | Some (Throws e, w) \<Rightarrow> Some (Throws e, w)
      | Some (Blocks, w) \<Rightarrow> Some (Blocks, w))"

definition do_unlock :: "mutex \<Rightarrow> world \<Rightarrow> (unit outcome \<times> world) option" where
  "do_unlock m w = (case unlock m w of (r, woken, w') \<Rightarrow> Some (r, w'))"

definition Counter3_value :: "counter3 \<Rightarrow> agent \<Rightarrow> world \<Rightarrow> (int outcome \<times> world) option" where
  "Counter3_value c self w =
     and_then (lock (Counter3_mutex c) self w) (\<lambda>_ w1.
       let v = get_element (Counter3_bufferView c) Counter_LOCATION w1
       in and_then (do_unlock (Counter3_mutex c) w1) (\<lambda>_ w2. Some (Returns v, w2)))"

definition Counter3_increment ::
  "counter3 \<Rightarrow> int \<Rightarrow> agent \<Rightarrow> world \<Rightarrow> (unit outcome \<times> world) option" where
  "Counter3_increment c v self w =
     and_then (lock (Counter3_mutex c) self w) (\<lambda>_ w1.
       let w2 = set_element (Counter3_bufferView c) Counter_LOCATION
                  (get_element (Counter3_bufferView c) Counter_LOCATION w1 + v) w1
       in do_unlock (Counter3_mutex c) w2)"

definition Counter3_decrement ::
  "counter3 \<Rightarrow> int \<Rightarrow> agent \<Rightarrow> world \<Rightarrow> (unit outcome \<times> world) option" where
  "Counter3_decrement c v self w = Counter3_increment c (- v) self w"

section \<open>The worker (counter.js, counting-worker.js)\<close>

text \<open>
  \<^verbatim>\<open>counter.js\<close> re-exports one of the three classes as \<^verbatim>\<open>Counter\<close>; which one is a
  one-line edit of that file (the repository has it with example 1 and with example 3).
  The worker calls the class with one argument, so the second parameter of example 3 is
  \<^verbatim>\<open>undefined\<close>, and calls \<^verbatim>\<open>increment()\<close> and \<^verbatim>\<open>decrement()\<close> with no argument, so the
  delta is the default 1.
\<close>

datatype example = Example1 | Example2 | Example3

datatype counter = NaiveCounter counter1 | AtomicCounter counter2 | GuardedCounter counter3

definition Counter_new :: "example \<Rightarrow> js_value \<Rightarrow> world \<Rightarrow> error + counter" where
  "Counter_new ex sharedBuffer w =
     (case ex of
        Example1 \<Rightarrow> map_sum id NaiveCounter (Counter1_new sharedBuffer w)
      | Example2 \<Rightarrow> map_sum id AtomicCounter (Counter2_new sharedBuffer w)
      | Example3 \<Rightarrow> map_sum id GuardedCounter (Counter3_new sharedBuffer Undefined w))"

fun Counter_increment :: "counter \<Rightarrow> agent \<Rightarrow> world \<Rightarrow> (unit outcome \<times> world) option" where
  "Counter_increment (NaiveCounter c) self w = Some (Returns (), Counter1_increment c 1 w)"
| "Counter_increment (AtomicCounter c) self w = Some (Returns (), Counter2_increment c 1 w)"
| "Counter_increment (GuardedCounter c) self w = Counter3_increment c 1 self w"

fun Counter_decrement :: "counter \<Rightarrow> agent \<Rightarrow> world \<Rightarrow> (unit outcome \<times> world) option" where
  "Counter_decrement (NaiveCounter c) self w = Some (Returns (), Counter1_decrement c 1 w)"
| "Counter_decrement (AtomicCounter c) self w = Some (Returns (), Counter2_decrement c 1 w)"
| "Counter_decrement (GuardedCounter c) self w = Counter3_decrement c 1 self w"

fun Counter_value :: "counter \<Rightarrow> agent \<Rightarrow> world \<Rightarrow> (int outcome \<times> world) option" where
  "Counter_value (NaiveCounter c) self w = Some (Returns (Counter1_value c w), w)"
| "Counter_value (AtomicCounter c) self w = Some (Returns (Counter2_value c w), w)"
| "Counter_value (GuardedCounter c) self w = Counter3_value c self w"

text \<open>
  The message the worker receives, and the one it posts. The worker reads only
  \<open>operation\<close> and \<open>sharedCounterBuffer\<close>; \<^verbatim>\<open>main.js\<close> sends \<open>sharedMutexBuffer\<close> too.
  The field \<^verbatim>\<open>done\<close> of the report is \<open>done_flag\<close> here.
\<close>

record event_data =
  operation :: string
  sharedCounterBuffer :: js_value
  sharedMutexBuffer :: js_value

record report =
  done_flag :: bool
  count :: int

text \<open>The loop \<^verbatim>\<open>while (numUpdates-- > 0) { update(); }\<close>.\<close>

fun while_updates ::
  "nat \<Rightarrow> (world \<Rightarrow> (unit outcome \<times> world) option) \<Rightarrow> world \<Rightarrow> (unit outcome \<times> world) option" where
  "while_updates 0 update w = Some (Returns (), w)"
| "while_updates (Suc numUpdates) update w =
     and_then (update w) (\<lambda>_ w'. while_updates numUpdates update w')"

text \<open>
  What follows the \<^verbatim>\<open>switch\<close> when the loop has returned: read \<^verbatim>\<open>counter.value\<close> and
  post the report. The result of the handler is its outcome, the messages it has
  posted, and the world. The calls of \<^verbatim>\<open>console.log\<close> are left out.
\<close>

definition post_count ::
  "counter \<Rightarrow> agent \<Rightarrow> (unit outcome \<times> world) option
     \<Rightarrow> (unit outcome \<times> report list \<times> world) option" where
  "post_count counter self r =
     (case r of
        None \<Rightarrow> None
      | Some (Throws e, w) \<Rightarrow> Some (Throws e, [], w)
      | Some (Blocks, w) \<Rightarrow> Some (Blocks, [], w)
      | Some (Returns _, w) \<Rightarrow>
          (case Counter_value counter self w of
             None \<Rightarrow> None
           | Some (Throws e, w') \<Rightarrow> Some (Throws e, [], w')
           | Some (Blocks, w') \<Rightarrow> Some (Blocks, [], w')
           | Some (Returns v, w') \<Rightarrow>
               Some (Returns (), [\<lparr>done_flag = True, count = v\<rparr>], w')))"

definition handleMessageFromMain ::
  "example \<Rightarrow> event_data \<Rightarrow> agent \<Rightarrow> world \<Rightarrow> (unit outcome \<times> report list \<times> world) option" where
  "handleMessageFromMain ex data self w =
     (case Counter_new ex (sharedCounterBuffer data) w of
        Inl e \<Rightarrow> Some (Throws e, [], w)
      | Inr counter \<Rightarrow>
          (let numUpdates = 100000
           in if operation data = ''increment''
              then post_count counter self
                     (while_updates numUpdates (Counter_increment counter self) w)
              else if operation data = ''decrement''
              then post_count counter self
                     (while_updates numUpdates (Counter_decrement counter self) w)
              else Some (Returns (), [], w)))"

section \<open>Several workers on one atomic counter\<close>

text \<open>
  Workers run in parallel, each in the loop of \<^verbatim>\<open>handleMessageFromMain\<close> on its own
  \<^verbatim>\<open>Counter\<close> object over the one shared buffer. With example 2 every pass of the loop
  is one \<^verbatim>\<open>Atomics.add\<close>, an indivisible step, so a parallel run is an interleaving of
  these steps: a schedule names the worker that moves next; \<open>numUpdates a\<close> is what
  worker \<open>a\<close> has left to do, and a worker with nothing left does nothing when named.
\<close>

fun run_schedule ::
  "counter2 \<Rightarrow> agent list \<Rightarrow> (agent \<Rightarrow> nat) \<Rightarrow> world \<Rightarrow> (agent \<Rightarrow> nat) \<times> world" where
  "run_schedule c [] numUpdates w = (numUpdates, w)"
| "run_schedule c (a # schedule) numUpdates w =
     (if numUpdates a > 0
      then run_schedule c schedule (numUpdates(a := numUpdates a - 1)) (Counter2_increment c 1 w)
      else run_schedule c schedule numUpdates w)"

text \<open>\<open>N\<close> workers, numbered from 0, with \<open>K\<close> increments each; and all of them done.\<close>

definition workers :: "nat \<Rightarrow> nat \<Rightarrow> agent \<Rightarrow> nat" where
  "workers N K a = (if a < N then K else 0)"

definition all_done :: "nat \<Rightarrow> (agent \<Rightarrow> nat) \<Rightarrow> bool" where
  "all_done N numUpdates = list_all (\<lambda>a. numUpdates a = 0) [0..<N]"

section \<open>Inputs\<close>

text \<open>
  A world for concrete runs: the buffer at address \<open>n\<close> is the one that
  \<^verbatim>\<open>new SharedArrayBuffer(n)\<close> creates, \<open>n\<close> bytes of zeros, and nobody waits.
\<close>

definition fresh_world :: world where
  "fresh_world =
     \<lparr>buffers = (\<lambda>n. \<lparr>byteLength = n, elements = (\<lambda>i. 0)\<rparr>), waiterList = (\<lambda>a i. [])\<rparr>"

text \<open>
  The values that the constructors reject by their own check: not a
  \<^verbatim>\<open>SharedArrayBuffer\<close>, or one of fewer than 4 bytes. And the buffers that hold whole
  4-byte elements, at least one.
\<close>

definition wrong_kind_or_too_small :: "js_value \<Rightarrow> world \<Rightarrow> bool" where
  "wrong_kind_or_too_small v w =
     (case v of SharedArrayBuffer a \<Rightarrow> byteLength (buffers w a) < 4 | _ \<Rightarrow> True)"

definition whole_elements :: "js_value \<Rightarrow> world \<Rightarrow> bool" where
  "whole_elements v w =
     (case v of
        SharedArrayBuffer a \<Rightarrow> 4 \<le> byteLength (buffers w a) \<and> byteLength (buffers w a) mod 4 = 0
      | _ \<Rightarrow> False)"

text \<open>
  A guarded counter whose counter buffer and mutex buffer are two buffers, as the spec's
  data model has them and as \<^verbatim>\<open>main.js\<close> allocates them.
\<close>

fun separate_buffers :: "counter3 \<Rightarrow> bool" where
  "separate_buffers (Counter3 (Uint32Array ac) (Mutex (Int32Array am))) = (ac \<noteq> am)"

text \<open>The Number in the counter slot of a guarded counter, read without the lock.\<close>

definition Counter3_slot :: "counter3 \<Rightarrow> world \<Rightarrow> int" where
  "Counter3_slot c w = get_element (Counter3_bufferView c) Counter_LOCATION w"

text \<open>
  The message that \<^verbatim>\<open>main.js\<close> posts for an operation, in \<open>fresh_world\<close>: the counter
  buffer is the one at address 4, the mutex buffer the one at address 8.
\<close>

definition message :: "string \<Rightarrow> event_data" where
  "message op =
     \<lparr>operation = op, sharedCounterBuffer = SharedArrayBuffer 4,
      sharedMutexBuffer = SharedArrayBuffer 8\<rparr>"

text \<open>
  The world in which the lock in the buffer at address 4 is held and the agents 7 and 9
  have called \<^verbatim>\<open>#waitIfLocked\<close> on it, in this order.
\<close>

definition two_waiting :: world where
  "two_waiting =
     snd (waitIfLocked (Mutex (Int32Array 4)) 9
       (snd (waitIfLocked (Mutex (Int32Array 4)) 7 (set_bits 4 0 1 fresh_world))))"


text \<open>The schedule in which \<open>N\<close> workers run one after the other, \<open>K\<close> steps each.\<close>

definition in_turn :: "nat \<Rightarrow> nat \<Rightarrow> agent list" where
  "in_turn N K = concat (map (replicate K) [0..<N])"

text \<open>
  The deltas for which the addition \<^verbatim>\<open>view[0] += value\<close> of examples 1 and 3 is exact in
  double arithmetic, whatever 32-bit value the counter holds.
\<close>

definition exact_delta :: "int \<Rightarrow> bool" where
  "exact_delta d = (\<bar>d\<bar> \<le> 2 ^ 53 - 2 ^ 32)"

section \<open>Memory and the lock slot\<close>

lemma sint32_eq_1: "sint (x :: 32 word) = 1 \<longleftrightarrow> x = 1"
proof
  assume "sint x = 1"
  then have "sint x = sint (1 :: 32 word)" by simp
  then show "x = 1" by (rule signed_word_eqI)
qed simp

lemma get_bits_set_bits:
  "get_bits a i (set_bits b j x w) = (if a = b \<and> i = j then x else get_bits a i w)"
  by (simp add: get_bits_def set_bits_def)

lemma waiterList_set_bits: "waiterList (set_bits a i x w) = waiterList w"
  by (simp add: set_bits_def)

lemma tryUnlock_eq:
  "tryUnlock (Mutex (Int32Array a)) w =
     (if lock_slot (Mutex (Int32Array a)) w = LOCKED then (True, set_bits a Mutex_LOCATION 0 w)
      else (False, w))"
  by (simp add: tryUnlock_def Let_def lock_slot_def ToInt32_def LOCKED_def UNLOCKED_def sint32_eq_1)

lemma tryGetLock_eq:
  "tryGetLock (Mutex (Int32Array a)) w =
     (if lock_slot (Mutex (Int32Array a)) w = UNLOCKED then (True, set_bits a Mutex_LOCATION 1 w)
      else (False, w))"
  by (simp add: tryGetLock_def Let_def lock_slot_def ToInt32_def LOCKED_def UNLOCKED_def
      signed_eq_0_iff)

lemma lock_slot_set_bits:
  "lock_slot (Mutex (Int32Array a)) (set_bits b i x w) =
     (if a = b \<and> i = Mutex_LOCATION then sint x else lock_slot (Mutex (Int32Array a)) w)"
  by (simp add: lock_slot_def get_bits_set_bits)

lemma unlock_eq:
  "unlock (Mutex (Int32Array a)) w =
     (if lock_slot (Mutex (Int32Array a)) w = LOCKED
      then (Returns (), take 1 (waiterList w a Mutex_LOCATION),
            (set_bits a Mutex_LOCATION 0 w)\<lparr>waiterList := (waiterList w)(a :=
               (waiterList w a)(Mutex_LOCATION := drop 1 (waiterList w a Mutex_LOCATION)))\<rparr>)
      else (Throws UnlockWhileNotHolding, [], w))"
  by (simp add: unlock_def tryUnlock_eq notifyAgents_def Let_def waiterList_set_bits)

lemma lock_when_UNLOCKED:
  "lock_slot (Mutex (Int32Array a)) w = UNLOCKED \<Longrightarrow>
   lock (Mutex (Int32Array a)) self w = Some (Returns (), set_bits a Mutex_LOCATION 1 w)"
  by (subst lock.simps) (simp add: tryGetLock_eq)

lemma lock_when_LOCKED:
  "lock_slot (Mutex (Int32Array a)) w = LOCKED \<Longrightarrow>
   lock (Mutex (Int32Array a)) self w =
     Some (Blocks, w\<lparr>waiterList := (waiterList w)(a :=
             (waiterList w a)(Mutex_LOCATION := waiterList w a Mutex_LOCATION @ [self]))\<rparr>)"
  by (subst lock.simps)
    (simp add: tryGetLock_eq waitIfLocked_def lock_slot_def LOCKED_def UNLOCKED_def ToInt32_def
      sint32_eq_1)

section \<open>The contract of unlock\<close>

text \<open>
  Claim C3. \<^verbatim>\<open>unlock()\<close> on a mutex whose lock slot does not hold \<open>LOCKED\<close> throws the
  error that the spec calls NotHeld, changes nothing in the world (so a slot that held
  \<open>UNLOCKED\<close> still does) and wakes nobody. \<^verbatim>\<open>unlock()\<close> on a mutex whose slot holds
  \<open>LOCKED\<close> returns, leaves the slot \<open>UNLOCKED\<close>, and wakes the first agent of the
  waiter list of the slot and no other: one agent if anybody waits, the rest stay
  suspended.
\<close>

theorem unlock_contract:
  "(lock_slot m w \<noteq> LOCKED \<longrightarrow>
      unlock m w = (Throws UnlockWhileNotHolding, [], w) \<and> NotHeld UnlockWhileNotHolding \<and>
      (lock_slot m w = UNLOCKED \<longrightarrow> lock_slot m (snd (snd (unlock m w))) = UNLOCKED)) \<and>
   (lock_slot m w = LOCKED \<longrightarrow>
      fst (unlock m w) = Returns () \<and>
      lock_slot m (snd (snd (unlock m w))) = UNLOCKED \<and>
      fst (snd (unlock m w)) = take 1 (lock_waiters m w) \<and>
      length (fst (snd (unlock m w))) = (if lock_waiters m w = [] then 0 else 1) \<and>
      lock_waiters m (snd (snd (unlock m w))) = drop 1 (lock_waiters m w))"
proof -
  obtain a where m: "m = Mutex (Int32Array a)"
    by (metis mutex.exhaust int32_array.exhaust)
  have len: "min (length xs) (Suc 0) = (if xs = [] then 0 else Suc 0)" for xs :: "agent list"
    by (cases xs) simp_all
  show ?thesis
    unfolding m
    by (simp add: unlock_eq NotHeld_def lock_waiters_def len)
      (simp add: lock_slot_def get_bits_def set_bits_def UNLOCKED_def)
qed

theorem unlock_contract_witness:
  "lock_slot (Mutex (Int32Array 4)) fresh_world \<noteq> LOCKED \<and>
   unlock (Mutex (Int32Array 4)) fresh_world = (Throws UnlockWhileNotHolding, [], fresh_world) \<and>
   lock_slot (Mutex (Int32Array 4)) two_waiting = LOCKED \<and>
   lock_waiters (Mutex (Int32Array 4)) two_waiting = [7, 9] \<and>
   fst (unlock (Mutex (Int32Array 4)) two_waiting) = Returns () \<and>
   fst (snd (unlock (Mutex (Int32Array 4)) two_waiting)) = [7] \<and>
   lock_waiters (Mutex (Int32Array 4)) (snd (snd (unlock (Mutex (Int32Array 4)) two_waiting))) = [9] \<and>
   lock_slot (Mutex (Int32Array 4)) (snd (snd (unlock (Mutex (Int32Array 4)) two_waiting))) = UNLOCKED"
proof -
  have free: "lock_slot (Mutex (Int32Array 4)) fresh_world \<noteq> LOCKED"
    by (simp add: lock_slot_def get_bits_def fresh_world_def LOCKED_def)
  have held: "lock_slot (Mutex (Int32Array 4)) two_waiting = LOCKED"
    by (simp add: two_waiting_def waitIfLocked_def lock_slot_def get_bits_def set_bits_def
        LOCKED_def ToInt32_def Mutex_LOCATION_def)
  have waiting: "lock_waiters (Mutex (Int32Array 4)) two_waiting = [7, 9]"
    by (simp add: two_waiting_def waitIfLocked_def lock_waiters_def get_bits_def set_bits_def
        LOCKED_def ToInt32_def Mutex_LOCATION_def fresh_world_def)
  from unlock_contract [of "Mutex (Int32Array 4)" fresh_world]
    unlock_contract [of "Mutex (Int32Array 4)" two_waiting] free held waiting
  show ?thesis by simp
qed

section \<open>Acquiring the lock\<close>

lemma lock_run_LockReturned: "lock_run m self others LockReturned w = (LockReturned, w)"
  by (cases others) simp_all

lemma lock_step_returned:
  assumes "lock_step m self pc w = (LockReturned, w')" and "pc \<noteq> LockReturned"
  shows "pc = AtTryGetLock \<and> tryGetLock m w = (True, w') \<and>
    lock_slot m w = UNLOCKED \<and> lock_slot m w' = LOCKED"
proof -
  obtain a where m: "m = Mutex (Int32Array a)"
    by (metis mutex.exhaust int32_array.exhaust)
  from assms show ?thesis
    unfolding m
    by (cases pc)
      (auto simp add: tryGetLock_eq waitIfLocked_def Let_def lock_slot_set_bits LOCKED_def
        split: if_splits prod.splits)
qed

lemma lock_step_suspended:
  assumes "fst (lock_step m self pc w) = InWait" and "pc \<noteq> InWait"
  shows "pc = AtWaitIfLocked \<and> lock_slot m w = LOCKED \<and>
    self \<in> set (lock_waiters m (snd (lock_step m self pc w)))"
proof -
  obtain a where m: "m = Mutex (Int32Array a)"
    by (metis mutex.exhaust int32_array.exhaust)
  from assms show ?thesis
    unfolding m
    by (cases pc)
      (auto simp add: tryGetLock_eq waitIfLocked_def Let_def lock_slot_def lock_waiters_def LOCKED_def
        ToInt32_def split: if_splits prod.splits)
qed

lemma lock_result:
  assumes "lock m self w = Some y"
  shows "(fst y = Returns () \<and> lock_slot m w = UNLOCKED \<and> lock_slot m (snd y) = LOCKED) \<or>
         (fst y = Blocks \<and> lock_slot m w = LOCKED)"
proof (rule lock.raw_induct [where P = "\<lambda>m self w y.
      (fst y = Returns () \<and> lock_slot m w = UNLOCKED \<and> lock_slot m (snd y) = LOCKED) \<or>
      (fst y = Blocks \<and> lock_slot m w = LOCKED)", OF _ assms])
  fix lock' :: "mutex \<Rightarrow> agent \<Rightarrow> world \<Rightarrow> (unit outcome \<times> world) option"
    and m self w y
  assume IH: "\<And>m self w y. lock' m self w = Some y \<Longrightarrow>
      (fst y = Returns () \<and> lock_slot m w = UNLOCKED \<and> lock_slot m (snd y) = LOCKED) \<or>
      (fst y = Blocks \<and> lock_slot m w = LOCKED)"
    and body: "(let (acquired, w') = tryGetLock m w
      in if acquired then Some (Returns (), w')
         else let (r, w'') = waitIfLocked m self w'
              in if r = Suspended then Some (Blocks, w'') else lock' m self w'') = Some y"
  obtain a where m: "m = Mutex (Int32Array a)"
    by (metis mutex.exhaust int32_array.exhaust)
  show "(fst y = Returns () \<and> lock_slot m w = UNLOCKED \<and> lock_slot m (snd y) = LOCKED) \<or>
      (fst y = Blocks \<and> lock_slot m w = LOCKED)"
  proof (cases "lock_slot m w = UNLOCKED")
    case True
    with body show ?thesis
      unfolding m by (auto simp add: tryGetLock_eq lock_slot_set_bits LOCKED_def)
  next
    case False
    note not_free = this
    show ?thesis
    proof (cases "lock_slot m w = LOCKED")
      case True
      with not_free body show ?thesis
        unfolding m
        by (auto simp add: tryGetLock_eq waitIfLocked_def lock_slot_def LOCKED_def ToInt32_def
            sint32_eq_1 split: if_splits)
    next
      case False
      with not_free body have "lock' m self w = Some y"
        unfolding m
        by (auto simp add: tryGetLock_eq waitIfLocked_def lock_slot_def LOCKED_def ToInt32_def
            sint32_eq_1 split: if_splits)
      from IH [OF this] show ?thesis .
    qed
  qed
qed


text \<open>The loop in a single context is the run of the steps with nobody interfering.\<close>

lemma lock_agrees_with_steps:
  "lock m self w = Some (Returns (), w') \<Longrightarrow>
     lock_run m self [id] AtTryGetLock w = (LockReturned, w')"
  "lock m self w = Some (Blocks, w') \<Longrightarrow>
     lock_run m self [id, id] AtTryGetLock w = (InWait, w')"
proof -
  obtain a where m: "m = Mutex (Int32Array a)"
    by (metis mutex.exhaust int32_array.exhaust)
  show "lock_run m self [id] AtTryGetLock w = (LockReturned, w')"
    if r: "lock m self w = Some (Returns (), w')"
  proof -
    from lock_result [OF r] have free: "lock_slot m w = UNLOCKED" by simp
    with r show ?thesis
      unfolding m by (simp add: lock_when_UNLOCKED tryGetLock_eq)
  qed
  show "lock_run m self [id, id] AtTryGetLock w = (InWait, w')"
    if r: "lock m self w = Some (Blocks, w')"
  proof -
    from lock_result [OF r] have held: "lock_slot m w = LOCKED" by simp
    with r show ?thesis
      unfolding m
      by (simp add: lock_when_LOCKED tryGetLock_eq waitIfLocked_def LOCKED_def UNLOCKED_def
          lock_slot_def ToInt32_def sint32_eq_1)
  qed
qed

lemma lock_run_last_step:
  assumes "lock_run m self others pc w = (LockReturned, w')" and "pc \<noteq> LockReturned"
  shows "\<exists>before env after w0.
      others = before @ env # after \<and>
      lock_run m self before pc w = (AtTryGetLock, w0) \<and>
      lock_step m self AtTryGetLock (env w0) = (LockReturned, w') \<and>
      tryGetLock m (env w0) = (True, w') \<and>
      lock_slot m (env w0) = UNLOCKED \<and> lock_slot m w' = LOCKED"
  using assms
proof (induction others arbitrary: pc w)
  case Nil
  then show ?case by simp
next
  case (Cons env rest)
  obtain pc1 w1 where step: "lock_step m self pc (env w) = (pc1, w1)"
    by (cases "lock_step m self pc (env w)")
  with Cons.prems have run: "lock_run m self rest pc1 w1 = (LockReturned, w')"
    by simp
  show ?case
  proof (cases "pc1 = LockReturned")
    case True
    with run have w1: "w1 = w'" by (simp add: lock_run_LockReturned)
    from step True w1 have last: "lock_step m self pc (env w) = (LockReturned, w')"
      by simp
    from lock_step_returned [OF last Cons.prems(2)]
    have pc: "pc = AtTryGetLock" and cas: "tryGetLock m (env w) = (True, w')"
      and before: "lock_slot m (env w) = UNLOCKED" and after: "lock_slot m w' = LOCKED"
      by simp_all
    have "env # rest = [] @ env # rest" and "lock_run m self [] pc w = (AtTryGetLock, w)"
      using pc by simp_all
    with last pc cas before after show ?thesis by blast
  next
    case False
    from Cons.IH [OF run False]
    obtain before env' after w0 where split: "rest = before @ env' # after"
      and pre: "lock_run m self before pc1 w1 = (AtTryGetLock, w0)"
      and last: "lock_step m self AtTryGetLock (env' w0) = (LockReturned, w')"
      and cas: "tryGetLock m (env' w0) = (True, w')"
      and slots: "lock_slot m (env' w0) = UNLOCKED" "lock_slot m w' = LOCKED"
      by blast
    have "env # rest = (env # before) @ env' # after"
      using split by simp
    moreover have "lock_run m self (env # before) pc w = (AtTryGetLock, w0)"
      using Cons.prems(2) step pre by simp
    ultimately show ?thesis
      using last cas slots by blast
  qed
qed

lemma lock_returned_by_own_cas:
  assumes "lock m self w = Some (Returns (), w')"
  shows "tryGetLock m w = (True, w')"
proof -
  obtain a where m: "m = Mutex (Int32Array a)"
    by (metis mutex.exhaust int32_array.exhaust)
  from lock_result [OF assms] have free: "lock_slot m w = UNLOCKED" by simp
  with assms show ?thesis
    unfolding m by (simp add: lock_when_UNLOCKED tryGetLock_eq)
qed

text \<open>
  Claim C7. Whatever the other agents do between the steps of an agent inside
  \<^verbatim>\<open>lock()\<close>, and from wherever in the call the agent is (woken from a wait included),
  when the call has returned, the step that returned is in the run: up to it the agent
  had come to \<^verbatim>\<open>#tryGetLock\<close>, the others moved once more, and then the agent's own
  compare-and-swap found the slot \<open>UNLOCKED\<close> and left it \<open>LOCKED\<close>, which is the world
  the call returns in. So the call never returns leaving the slot \<open>UNLOCKED\<close>, and no
  step other than a successful \<^verbatim>\<open>#tryGetLock\<close> returns. The agent is suspended only by
  \<^verbatim>\<open>#waitIfLocked\<close> finding the slot \<open>LOCKED\<close>, and the step after any wake-up is again
  \<^verbatim>\<open>#tryGetLock\<close>. Run in a single context, \<^verbatim>\<open>lock()\<close> returns only from a slot that
  held \<open>UNLOCKED\<close>, by its compare-and-swap, leaving it \<open>LOCKED\<close>, and is suspended
  only on a slot holding \<open>LOCKED\<close>.
\<close>

theorem lock_returns_only_holding:
  "(pc \<noteq> LockReturned \<and> lock_run m self others pc w = (LockReturned, w') \<longrightarrow>
      lock_slot m w' = LOCKED \<and>
      (\<exists>before env after w0.
         others = before @ env # after \<and>
         lock_run m self before pc w = (AtTryGetLock, w0) \<and>
         lock_step m self AtTryGetLock (env w0) = (LockReturned, w') \<and>
         tryGetLock m (env w0) = (True, w') \<and>
         lock_slot m (env w0) = UNLOCKED)) \<and>
   (pc \<noteq> LockReturned \<and> lock_step m self pc w = (LockReturned, w') \<longrightarrow>
      pc = AtTryGetLock \<and> tryGetLock m w = (True, w') \<and>
      lock_slot m w = UNLOCKED \<and> lock_slot m w' = LOCKED) \<and>
   (pc \<noteq> InWait \<and> fst (lock_step m self pc w) = InWait \<longrightarrow>
      pc = AtWaitIfLocked \<and> lock_slot m w = LOCKED) \<and>
   lock_step m self InWait w = (AtTryGetLock, w) \<and>
   (lock m self w = Some (Returns (), w') \<longrightarrow>
      lock_slot m w = UNLOCKED \<and> lock_slot m w' = LOCKED \<and> tryGetLock m w = (True, w')) \<and>
   (lock m self w = Some (Blocks, w') \<longrightarrow> lock_slot m w = LOCKED)"
proof -
  have run: "lock_slot m w' = LOCKED \<and>
      (\<exists>before env after w0.
         others = before @ env # after \<and>
         lock_run m self before pc w = (AtTryGetLock, w0) \<and>
         lock_step m self AtTryGetLock (env w0) = (LockReturned, w') \<and>
         tryGetLock m (env w0) = (True, w') \<and>
         lock_slot m (env w0) = UNLOCKED)"
    if "pc \<noteq> LockReturned" and "lock_run m self others pc w = (LockReturned, w')"
    using lock_run_last_step [OF that(2) that(1)] by blast
  have step: "pc = AtTryGetLock \<and> tryGetLock m w = (True, w') \<and>
      lock_slot m w = UNLOCKED \<and> lock_slot m w' = LOCKED"
    if "pc \<noteq> LockReturned" and "lock_step m self pc w = (LockReturned, w')"
    using lock_step_returned [OF that(2) that(1)] .
  have wait: "pc = AtWaitIfLocked \<and> lock_slot m w = LOCKED"
    if "pc \<noteq> InWait" and "fst (lock_step m self pc w) = InWait"
    using lock_step_suspended [OF that(2) that(1)] by blast
  have wake: "lock_step m self InWait w = (AtTryGetLock, w)"
    by simp
  have ret: "lock_slot m w = UNLOCKED \<and> lock_slot m w' = LOCKED \<and> tryGetLock m w = (True, w')"
    if "lock m self w = Some (Returns (), w')"
    using lock_result [OF that] lock_returned_by_own_cas [OF that] by simp
  have blk: "lock_slot m w = LOCKED" if "lock m self w = Some (Blocks, w')"
    using lock_result [OF that] by simp
  from run step wait wake ret blk show ?thesis by blast
qed

text \<open>
  Three runs on the 4-byte buffer at address 4. With the lock free the first step
  acquires it. With the lock held, the agent fails, waits, is woken after another agent
  has stored \<open>UNLOCKED\<close>, and acquires the lock; woken with the lock still held, it
  fails again and is back at \<^verbatim>\<open>#waitIfLocked\<close>, not returned.
\<close>

theorem lock_returns_only_holding_witness:
  "lock_run (Mutex (Int32Array 4)) 0 [id] AtTryGetLock fresh_world =
     (LockReturned, set_bits 4 0 1 fresh_world) \<and>
   lock_slot (Mutex (Int32Array 4)) (set_bits 4 0 1 fresh_world) = LOCKED \<and>
   fst (lock_run (Mutex (Int32Array 4)) 0 [id, id, set_bits 4 0 0, id] AtTryGetLock
          (set_bits 4 0 1 fresh_world)) = LockReturned \<and>
   lock_slot (Mutex (Int32Array 4))
     (snd (lock_run (Mutex (Int32Array 4)) 0 [id, id, set_bits 4 0 0, id] AtTryGetLock
            (set_bits 4 0 1 fresh_world))) = LOCKED \<and>
   (\<exists>before env after w0.
      [id, id, set_bits 4 0 0, id] = before @ env # after \<and>
      lock_run (Mutex (Int32Array 4)) 0 before AtTryGetLock (set_bits 4 0 1 fresh_world) =
        (AtTryGetLock, w0) \<and>
      lock_slot (Mutex (Int32Array 4)) (env w0) = UNLOCKED) \<and>
   fst (lock_run (Mutex (Int32Array 4)) 0 [id, id, id, id] AtTryGetLock
          (set_bits 4 0 1 fresh_world)) = AtWaitIfLocked \<and>
   fst (lock_step (Mutex (Int32Array 4)) 0 AtWaitIfLocked (set_bits 4 0 1 fresh_world)) = InWait \<and>
   lock (Mutex (Int32Array 4)) 0 fresh_world = Some (Returns (), set_bits 4 0 1 fresh_world) \<and>
   tryGetLock (Mutex (Int32Array 4)) fresh_world = (True, set_bits 4 0 1 fresh_world) \<and>
   lock_slot (Mutex (Int32Array 4)) fresh_world = UNLOCKED \<and>
   (\<exists>w'. lock (Mutex (Int32Array 4)) 0 (set_bits 4 0 1 fresh_world) = Some (Blocks, w'))"
proof -
  let ?m = "Mutex (Int32Array 4)"
  let ?held = "set_bits 4 0 1 fresh_world"
  let ?others = "[id, id, set_bits 4 0 0, id]"
  let ?end = "snd (lock_run ?m 0 ?others AtTryGetLock ?held)"
  have free: "lock_slot ?m fresh_world = UNLOCKED"
    by (simp add: lock_slot_def get_bits_def fresh_world_def UNLOCKED_def)
  have held: "lock_slot ?m ?held = LOCKED"
    by (simp add: lock_slot_set_bits Mutex_LOCATION_def LOCKED_def)
  have run: "lock_run ?m 0 [id] AtTryGetLock fresh_world = (LockReturned, ?held)"
    by (simp add: tryGetLock_eq free Mutex_LOCATION_def)
  have released: "fst (lock_run ?m 0 ?others AtTryGetLock ?held) = LockReturned"
    by (simp add: tryGetLock_eq waitIfLocked_def held lock_slot_set_bits get_bits_set_bits
        Mutex_LOCATION_def LOCKED_def UNLOCKED_def ToInt32_def lock_slot_def get_bits_def
        set_bits_def)
  then have released': "lock_run ?m 0 ?others AtTryGetLock ?held = (LockReturned, ?end)"
    by (metis prod.collapse)
  have woken_in_vain: "fst (lock_run ?m 0 [id, id, id, id] AtTryGetLock ?held) = AtWaitIfLocked"
    by (simp add: tryGetLock_eq waitIfLocked_def held lock_slot_set_bits get_bits_set_bits
        Mutex_LOCATION_def LOCKED_def UNLOCKED_def ToInt32_def lock_slot_def get_bits_def
        set_bits_def)
  have wait: "fst (lock_step ?m 0 AtWaitIfLocked ?held) = InWait"
    by (simp add: waitIfLocked_def get_bits_set_bits Mutex_LOCATION_def LOCKED_def ToInt32_def)
  have seq: "lock ?m 0 fresh_world = Some (Returns (), ?held)"
    using lock_when_UNLOCKED [OF free, of 0] by (simp add: Mutex_LOCATION_def)
  have blk: "\<exists>w'. lock ?m 0 ?held = Some (Blocks, w')"
    using lock_when_LOCKED [OF held, of 0] by simp
  have start: "AtTryGetLock \<noteq> LockReturned"
    by simp
  note through = lock_returns_only_holding [of AtTryGetLock ?m 0 ?others ?held ?end]
  from through have "AtTryGetLock \<noteq> LockReturned \<and>
      lock_run ?m 0 ?others AtTryGetLock ?held = (LockReturned, ?end) \<longrightarrow>
      lock_slot ?m ?end = LOCKED \<and>
      (\<exists>before env after w0.
         ?others = before @ env # after \<and>
         lock_run ?m 0 before AtTryGetLock ?held = (AtTryGetLock, w0) \<and>
         lock_step ?m 0 AtTryGetLock (env w0) = (LockReturned, ?end) \<and>
         tryGetLock ?m (env w0) = (True, ?end) \<and>
         lock_slot ?m (env w0) = UNLOCKED)"
    by (rule conjunct1)
  with start released'
  have last: "lock_slot ?m ?end = LOCKED"
    and split: "\<exists>before env after w0.
      ?others = before @ env # after \<and>
      lock_run ?m 0 before AtTryGetLock ?held = (AtTryGetLock, w0) \<and>
      lock_slot ?m (env w0) = UNLOCKED"
    by blast+
  note alone = lock_returns_only_holding [of AtTryGetLock ?m 0 "[]" fresh_world ?held]
  from alone seq have cas: "tryGetLock ?m fresh_world = (True, ?held)"
    by blast
  from run held released last split woken_in_vain wait seq cas free blk
  show ?thesis by blast
qed

section \<open>Counter arithmetic\<close>

lemma uint_word_of_int_32: "uint (word_of_int k :: 32 word) = k mod 4294967296"
  by (simp add: uint_word_of_int take_bit_eq_mod)

lemma uint_plus_word_of_int_32: "uint (x + word_of_int d :: 32 word) = (uint x + d) mod 4294967296"
  using uint_word_of_int_32 [of "uint x + d"] by simp

lemma uint_minus_word_of_int_32: "uint (x - word_of_int d :: 32 word) = (uint x - d) mod 4294967296"
  using uint_word_of_int_32 [of "uint x - d"] by simp

lemma uint_less_32: "uint (x :: 32 word) < 4294967296"
  using uint_bounded [of x] by simp

lemma Counter1_increment_value:
  "Counter1_value c (Counter1_increment c d w) = (Counter1_value c w + d) mod 2 ^ 32"
proof -
  obtain a where c: "c = Counter1 (Uint32Array a)"
    by (metis counter1.exhaust uint32_array.exhaust)
  show ?thesis
    by (simp add: c Counter1_value_def Counter1_increment_def get_bits_set_bits ToUint32_def
        uint_plus_word_of_int_32)
qed

lemma Counter2_increment_value:
  "Counter2_value c (Counter2_increment c d w) = (Counter2_value c w + d) mod 2 ^ 32"
proof -
  obtain a where c: "c = Counter2 (Uint32Array a)"
    by (metis counter2.exhaust uint32_array.exhaust)
  show ?thesis
    by (simp add: c Counter2_value_def Counter2_increment_def get_bits_set_bits ToUint32_def Let_def
        uint_plus_word_of_int_32)
qed

lemma Atomics_sub_add: "Atomics_sub view i d w = Atomics_add view i (- d) w"
  by (cases view) (simp add: ToUint32_def Let_def)

lemma Counter2_decrement_increment: "Counter2_decrement c d w = Counter2_increment c (- d) w"
  by (simp add: Counter2_decrement_def Counter2_increment_def Atomics_sub_add)

lemma Counter3_increment_eq:
  assumes "lock_slot (Mutex (Int32Array am)) w = UNLOCKED" and "ac \<noteq> am"
  shows "Counter3_increment (Counter3 (Uint32Array ac) (Mutex (Int32Array am))) d self w =
     Some (Returns (),
       (set_bits am Mutex_LOCATION 0
          (set_bits ac Counter_LOCATION (ToUint32 (uint (get_bits ac Counter_LOCATION w) + d))
             (set_bits am Mutex_LOCATION 1 w)))
        \<lparr>waiterList := (waiterList w)(am :=
           (waiterList w am)(Mutex_LOCATION := drop 1 (waiterList w am Mutex_LOCATION)))\<rparr>)"
  using assms
  by (simp add: Counter3_increment_def lock_when_UNLOCKED and_then_def do_unlock_def unlock_eq
      lock_slot_set_bits get_bits_set_bits waiterList_set_bits LOCKED_def Let_def)


section \<open>Decrement\<close>

text \<open>
  Claim C6. In each of the three classes \<^verbatim>\<open>decrement(d)\<close> does to the world what
  \<^verbatim>\<open>increment(-d)\<close> does: examples 1 and 3 call it, and in example 2 \<^verbatim>\<open>Atomics.sub\<close> of
  \<open>d\<close> is \<^verbatim>\<open>Atomics.add\<close> of \<open>- d\<close>, in the value returned and in the world left.
\<close>

theorem decrement_is_increment_of_negation:
  "Counter1_decrement c1 d w = Counter1_increment c1 (- d) w \<and>
   Counter2_decrement c2 d w = Counter2_increment c2 (- d) w \<and>
   Counter3_decrement c3 d self w = Counter3_increment c3 (- d) self w \<and>
   Atomics_sub view i d w = Atomics_add view i (- d) w"
  by (simp add: Counter1_decrement_def Counter2_decrement_increment Counter3_decrement_def
      Atomics_sub_add)

text \<open>
  Claim C5. The value of each counter is a Number from 0 to \<open>2 ^ 32 - 1\<close>, and after
  \<^verbatim>\<open>decrement(d)\<close> on a counter that held \<open>c\<close> the slot holds \<open>(c - d) mod 2 ^ 32\<close>: the
  call does not fail below zero, it wraps. For examples 1 and 3 the delta is one on which
  the addition of doubles is exact; the guarded counter is called in a single context
  with its lock free and its two buffers separate, and then the call returns.
\<close>

theorem decrement_wraps:
  "0 \<le> Counter1_value c1 w \<and> Counter1_value c1 w < 2 ^ 32 \<and>
   0 \<le> Counter2_value c2 w \<and> Counter2_value c2 w < 2 ^ 32 \<and>
   0 \<le> Counter3_slot c3 w \<and> Counter3_slot c3 w < 2 ^ 32 \<and>
   (exact_delta d \<longrightarrow>
      Counter1_value c1 (Counter1_decrement c1 d w) = (Counter1_value c1 w - d) mod 2 ^ 32) \<and>
   Counter2_value c2 (Counter2_decrement c2 d w) = (Counter2_value c2 w - d) mod 2 ^ 32 \<and>
   (exact_delta d \<and> separate_buffers c3 \<and> lock_slot (Counter3_mutex c3) w = UNLOCKED \<longrightarrow>
      (\<exists>w'. Counter3_decrement c3 d self w = Some (Returns (), w') \<and>
            Counter3_slot c3 w' = (Counter3_slot c3 w - d) mod 2 ^ 32))"
proof -
  obtain a1 where c1: "c1 = Counter1 (Uint32Array a1)"
    by (metis counter1.exhaust uint32_array.exhaust)
  obtain a2 where c2: "c2 = Counter2 (Uint32Array a2)"
    by (metis counter2.exhaust uint32_array.exhaust)
  obtain ac am where c3: "c3 = Counter3 (Uint32Array ac) (Mutex (Int32Array am))"
    by (metis counter3.exhaust uint32_array.exhaust mutex.exhaust int32_array.exhaust)
  have range: "0 \<le> Counter1_value c1 w \<and> Counter1_value c1 w < 2 ^ 32 \<and>
      0 \<le> Counter2_value c2 w \<and> Counter2_value c2 w < 2 ^ 32 \<and>
      0 \<le> Counter3_slot c3 w \<and> Counter3_slot c3 w < 2 ^ 32"
    by (simp add: c1 c2 c3 Counter1_value_def Counter2_value_def Counter3_slot_def uint_less_32)
  have one: "Counter1_value c1 (Counter1_decrement c1 d w) = (Counter1_value c1 w - d) mod 2 ^ 32"
    by (simp add: Counter1_decrement_def Counter1_increment_value)
  have two: "Counter2_value c2 (Counter2_decrement c2 d w) = (Counter2_value c2 w - d) mod 2 ^ 32"
    by (simp add: Counter2_decrement_increment Counter2_increment_value)
  have three: "\<exists>w'. Counter3_decrement c3 d self w = Some (Returns (), w') \<and>
            Counter3_slot c3 w' = (Counter3_slot c3 w - d) mod 2 ^ 32"
    if "separate_buffers c3" and "lock_slot (Counter3_mutex c3) w = UNLOCKED"
    using that
    by (simp add: c3 Counter3_decrement_def Counter3_increment_eq Counter3_slot_def
        get_bits_def set_bits_def ToUint32_def uint_minus_word_of_int_32)
  from range one two three show ?thesis by blast
qed

theorem decrement_wraps_witness:
  "exact_delta 1 \<and>
   separate_buffers (Counter3 (Uint32Array 4) (Mutex (Int32Array 8))) \<and>
   lock_slot (Counter3_mutex (Counter3 (Uint32Array 4) (Mutex (Int32Array 8)))) fresh_world = UNLOCKED \<and>
   Counter1_value (Counter1 (Uint32Array 4)) fresh_world = 0 \<and>
   Counter1_value (Counter1 (Uint32Array 4))
     (Counter1_decrement (Counter1 (Uint32Array 4)) 1 fresh_world) = 4294967295 \<and>
   Counter2_value (Counter2 (Uint32Array 4))
     (Counter2_decrement (Counter2 (Uint32Array 4)) 1 fresh_world) = 4294967295 \<and>
   (\<exists>w'. Counter3_decrement (Counter3 (Uint32Array 4) (Mutex (Int32Array 8))) 1 0 fresh_world =
            Some (Returns (), w') \<and>
         Counter3_slot (Counter3 (Uint32Array 4) (Mutex (Int32Array 8))) w' = 4294967295)"
proof -
  have h: "exact_delta 1"
    "separate_buffers (Counter3 (Uint32Array 4) (Mutex (Int32Array 8)))"
    "lock_slot (Counter3_mutex (Counter3 (Uint32Array 4) (Mutex (Int32Array 8)))) fresh_world = UNLOCKED"
    by (simp_all add: exact_delta_def lock_slot_def get_bits_def fresh_world_def UNLOCKED_def)
  have v: "Counter1_value (Counter1 (Uint32Array 4)) fresh_world = 0"
    "Counter2_value (Counter2 (Uint32Array 4)) fresh_world = 0"
    "Counter3_slot (Counter3 (Uint32Array 4) (Mutex (Int32Array 8))) fresh_world = 0"
    by (simp_all add: Counter1_value_def Counter2_value_def Counter3_slot_def get_bits_def
        fresh_world_def)
  from decrement_wraps [of "Counter1 (Uint32Array 4)" fresh_world "Counter2 (Uint32Array 4)"
      "Counter3 (Uint32Array 4) (Mutex (Int32Array 8))" 1 0] h v
  show ?thesis by simp
qed

section \<open>Construction\<close>

lemma ensure_wrong_kind_or_too_small:
  assumes "wrong_kind_or_too_small v w"
  shows "\<exists>e. Mutex_ensureSharedArrayBuffer v w = Inl e \<and> InvalidBuffer e"
    and "\<exists>e. Counter_ensureSharedArrayBuffer v w = Inl e \<and> InvalidBuffer e"
  using assms
  by (cases v; simp add: wrong_kind_or_too_small_def Mutex_ensureSharedArrayBuffer_def
      Counter_ensureSharedArrayBuffer_def InvalidBuffer_def Int32Array_BYTES_PER_ELEMENT_def
      Uint32Array_BYTES_PER_ELEMENT_def)+

lemma Mutex_new_whole_elements:
  "whole_elements v w \<Longrightarrow> \<exists>a. v = SharedArrayBuffer a \<and> Mutex_new v w = Inr (Mutex (Int32Array a))"
  by (cases v; simp add: whole_elements_def Mutex_new_def Mutex_ensureSharedArrayBuffer_def
      new_Int32Array_def Int32Array_BYTES_PER_ELEMENT_def)

lemma Counter1_new_whole_elements:
  "whole_elements v w \<Longrightarrow>
   \<exists>a. v = SharedArrayBuffer a \<and> Counter1_new v w = Inr (Counter1 (Uint32Array a))"
  by (cases v; simp add: whole_elements_def Counter1_new_def Counter_ensureSharedArrayBuffer_def
      new_Uint32Array_def Uint32Array_BYTES_PER_ELEMENT_def)

lemma Counter2_new_whole_elements:
  "whole_elements v w \<Longrightarrow>
   \<exists>a. v = SharedArrayBuffer a \<and> Counter2_new v w = Inr (Counter2 (Uint32Array a))"
  by (cases v; simp add: whole_elements_def Counter2_new_def Counter_ensureSharedArrayBuffer_def
      new_Uint32Array_def Uint32Array_BYTES_PER_ELEMENT_def)

lemma Counter3_new_whole_elements:
  "whole_elements v w \<Longrightarrow>
   \<exists>a. v = SharedArrayBuffer a \<and>
       Counter3_new v v' w =
         (case Mutex_new v' w of Inl e \<Rightarrow> Inl e | Inr m \<Rightarrow> Inr (Counter3 (Uint32Array a) m))"
  by (cases v; simp add: whole_elements_def Counter3_new_def Counter_ensureSharedArrayBuffer_def
      new_Uint32Array_def Uint32Array_BYTES_PER_ELEMENT_def)

text \<open>
  Claim C4, amended. Given a value that is not a \<^verbatim>\<open>SharedArrayBuffer\<close>, or one of fewer
  than 4 bytes, the constructor of \<^verbatim>\<open>Mutex\<close> and of each \<^verbatim>\<open>Counter\<close> throws one of the
  two errors that the spec calls InvalidBuffer and makes no object (for the guarded
  counter: whichever of its two arguments the value is, the other being fit). Given a
  \<^verbatim>\<open>SharedArrayBuffer\<close> of 4 bytes or more whose byte length is a multiple of 4, each
  constructor succeeds.
\<close>

theorem construction_validation:
  "(wrong_kind_or_too_small v w \<longrightarrow>
      (\<exists>e. Mutex_new v w = Inl e \<and> InvalidBuffer e) \<and>
      (\<exists>e. Counter1_new v w = Inl e \<and> InvalidBuffer e) \<and>
      (\<exists>e. Counter2_new v w = Inl e \<and> InvalidBuffer e) \<and>
      (\<exists>e. Counter3_new v v' w = Inl e \<and> InvalidBuffer e) \<and>
      (whole_elements v' w \<longrightarrow> (\<exists>e. Counter3_new v' v w = Inl e \<and> InvalidBuffer e))) \<and>
   (whole_elements v w \<longrightarrow>
      (\<exists>m. Mutex_new v w = Inr m) \<and>
      (\<exists>c. Counter1_new v w = Inr c) \<and>
      (\<exists>c. Counter2_new v w = Inr c) \<and>
      (whole_elements v' w \<longrightarrow> (\<exists>c. Counter3_new v v' w = Inr c)))"
proof (intro conjI impI)
  assume bad: "wrong_kind_or_too_small v w"
  from ensure_wrong_kind_or_too_small [OF bad]
  obtain e1 e2 where e1: "Mutex_ensureSharedArrayBuffer v w = Inl e1" "InvalidBuffer e1"
    and e2: "Counter_ensureSharedArrayBuffer v w = Inl e2" "InvalidBuffer e2"
    by blast
  show m: "\<exists>e. Mutex_new v w = Inl e \<and> InvalidBuffer e"
    using e1 by (simp add: Mutex_new_def)
  show "\<exists>e. Counter1_new v w = Inl e \<and> InvalidBuffer e"
    using e2 by (simp add: Counter1_new_def)
  show "\<exists>e. Counter2_new v w = Inl e \<and> InvalidBuffer e"
    using e2 by (simp add: Counter2_new_def)
  show "\<exists>e. Counter3_new v v' w = Inl e \<and> InvalidBuffer e"
    using e2 by (simp add: Counter3_new_def)
  show "\<exists>e. Counter3_new v' v w = Inl e \<and> InvalidBuffer e" if "whole_elements v' w"
    using Counter3_new_whole_elements [OF that, of v] m by auto
next
  assume good: "whole_elements v w"
  show "\<exists>m. Mutex_new v w = Inr m"
    using Mutex_new_whole_elements [OF good] by blast
  show "\<exists>c. Counter1_new v w = Inr c"
    using Counter1_new_whole_elements [OF good] by blast
  show "\<exists>c. Counter2_new v w = Inr c"
    using Counter2_new_whole_elements [OF good] by blast
  show "\<exists>c. Counter3_new v v' w = Inr c" if "whole_elements v' w"
    using Counter3_new_whole_elements [OF good, of v'] Mutex_new_whole_elements [OF that] by auto
qed

theorem construction_validation_witness:
  "wrong_kind_or_too_small (SharedArrayBuffer 3) fresh_world \<and>
   wrong_kind_or_too_small (ArrayBuffer 4) fresh_world \<and>
   whole_elements (SharedArrayBuffer 4) fresh_world \<and>
   whole_elements (SharedArrayBuffer 8) fresh_world \<and>
   (\<exists>e. Counter3_new (SharedArrayBuffer 4) (SharedArrayBuffer 3) fresh_world = Inl e \<and> InvalidBuffer e) \<and>
   (\<exists>e. Mutex_new (ArrayBuffer 4) fresh_world = Inl e \<and> InvalidBuffer e) \<and>
   (\<exists>c. Counter3_new (SharedArrayBuffer 4) (SharedArrayBuffer 8) fresh_world = Inr c)"
proof -
  have h: "wrong_kind_or_too_small (SharedArrayBuffer 3) fresh_world"
    "wrong_kind_or_too_small (ArrayBuffer 4) fresh_world"
    "whole_elements (SharedArrayBuffer 4) fresh_world"
    "whole_elements (SharedArrayBuffer 8) fresh_world"
    by (simp_all add: wrong_kind_or_too_small_def whole_elements_def fresh_world_def)
  from construction_validation [of "SharedArrayBuffer 3" fresh_world "SharedArrayBuffer 4"]
    construction_validation [of "ArrayBuffer 4" fresh_world Undefined]
    construction_validation [of "SharedArrayBuffer 4" fresh_world "SharedArrayBuffer 8"] h
  show ?thesis by blast
qed

text \<open>
  The claim as it stands, that construction succeeds on every \<^verbatim>\<open>SharedArrayBuffer\<close> of
  4 bytes or more, fails on one of 5 bytes: the check of the class lets it through, and
  the typed-array constructor throws its \<^verbatim>\<open>RangeError\<close>.
\<close>

theorem construction_five_bytes:
  "4 \<le> byteLength (buffers fresh_world 5) \<and>
   Mutex_new (SharedArrayBuffer 5) fresh_world = Inl TypedArrayRangeError \<and>
   Counter1_new (SharedArrayBuffer 5) fresh_world = Inl TypedArrayRangeError \<and>
   Counter2_new (SharedArrayBuffer 5) fresh_world = Inl TypedArrayRangeError \<and>
   Counter3_new (SharedArrayBuffer 5) (SharedArrayBuffer 4) fresh_world = Inl TypedArrayRangeError"
  by (simp add: fresh_world_def Mutex_new_def Counter1_new_def Counter2_new_def Counter3_new_def
      Mutex_ensureSharedArrayBuffer_def Counter_ensureSharedArrayBuffer_def new_Int32Array_def
      new_Uint32Array_def Int32Array_BYTES_PER_ELEMENT_def Uint32Array_BYTES_PER_ELEMENT_def)


section \<open>The guarded counter in one context\<close>














section \<open>The worker\<close>

lemma while_updates_total:
  "while_updates n (\<lambda>w. Some (Returns (), f w)) w = Some (Returns (), (f ^^ n) w)"
  by (induction n arbitrary: w) (simp_all add: and_then_def funpow_swap1)

lemma Counter_increment_naive:
  "Counter_increment (NaiveCounter c) self = (\<lambda>w. Some (Returns (), Counter1_increment c 1 w))"
  by (rule ext) simp

lemma Counter_decrement_naive:
  "Counter_decrement (NaiveCounter c) self = (\<lambda>w. Some (Returns (), Counter1_decrement c 1 w))"
  by (rule ext) simp

lemma Counter_increment_atomic:
  "Counter_increment (AtomicCounter c) self = (\<lambda>w. Some (Returns (), Counter2_increment c 1 w))"
  by (rule ext) simp

lemma Counter_decrement_atomic:
  "Counter_decrement (AtomicCounter c) self = (\<lambda>w. Some (Returns (), Counter2_decrement c 1 w))"
  by (rule ext) simp

lemma get_bits_Counter1_increments:
  "get_bits a Counter_LOCATION ((Counter1_increment (Counter1 (Uint32Array a)) d ^^ n) w) =
     get_bits a Counter_LOCATION w + of_nat n * word_of_int d"
  by (induction n)
    (simp_all add: Counter1_increment_def get_bits_set_bits ToUint32_def algebra_simps)

lemma get_bits_Counter2_increments:
  "get_bits a Counter_LOCATION ((Counter2_increment (Counter2 (Uint32Array a)) d ^^ n) w) =
     get_bits a Counter_LOCATION w + of_nat n * word_of_int d"
  by (induction n)
    (simp_all add: Counter2_increment_def get_bits_set_bits ToUint32_def Let_def algebra_simps)

lemma uint_plus_of_nat_32: "uint (x + of_nat n :: 32 word) = (uint x + int n) mod 4294967296"
  using uint_plus_word_of_int_32 [of x "int n"] by simp

lemma Counter1_value_increments:
  "Counter1_value (Counter1 (Uint32Array a)) ((Counter1_increment (Counter1 (Uint32Array a)) 1 ^^ n) w) =
     (Counter1_value (Counter1 (Uint32Array a)) w + int n) mod 2 ^ 32"
  by (simp add: Counter1_value_def get_bits_Counter1_increments uint_plus_of_nat_32)

lemma Counter2_value_increments:
  "Counter2_value (Counter2 (Uint32Array a)) ((Counter2_increment (Counter2 (Uint32Array a)) 1 ^^ n) w) =
     (Counter2_value (Counter2 (Uint32Array a)) w + int n) mod 2 ^ 32"
  by (simp add: Counter2_value_def get_bits_Counter2_increments uint_plus_of_nat_32)

lemma Counter_new_Example1:
  "whole_elements v w \<Longrightarrow>
   \<exists>a. v = SharedArrayBuffer a \<and> Counter_new Example1 v w = Inr (NaiveCounter (Counter1 (Uint32Array a)))"
  using Counter1_new_whole_elements [of v w] by (auto simp: Counter_new_def)

lemma Counter_new_Example2:
  "whole_elements v w \<Longrightarrow>
   \<exists>a. v = SharedArrayBuffer a \<and> Counter_new Example2 v w = Inr (AtomicCounter (Counter2 (Uint32Array a)))"
  using Counter2_new_whole_elements [of v w] by (auto simp: Counter_new_def)

lemma handle_naive:
  assumes "Counter_new Example1 (sharedCounterBuffer data) w = Inr (NaiveCounter c)"
    and "operation data = ''increment'' \<or> operation data = ''decrement''"
  shows "handleMessageFromMain Example1 data self w =
     Some (Returns (),
       [\<lparr>done_flag = True,
         count = Counter1_value c
           (((if operation data = ''increment'' then Counter1_increment c 1
              else Counter1_decrement c 1) ^^ 100000) w)\<rparr>],
       ((if operation data = ''increment'' then Counter1_increment c 1
         else Counter1_decrement c 1) ^^ 100000) w)"
  using assms
  by (auto simp add: handleMessageFromMain_def Let_def post_count_def Counter_increment_naive
      Counter_decrement_naive while_updates_total simp del: funpow.simps)

lemma handle_atomic:
  assumes "Counter_new Example2 (sharedCounterBuffer data) w = Inr (AtomicCounter c)"
    and "operation data = ''increment'' \<or> operation data = ''decrement''"
  shows "handleMessageFromMain Example2 data self w =
     Some (Returns (),
       [\<lparr>done_flag = True,
         count = Counter2_value c
           (((if operation data = ''increment'' then Counter2_increment c 1
              else Counter2_decrement c 1) ^^ 100000) w)\<rparr>],
       ((if operation data = ''increment'' then Counter2_increment c 1
         else Counter2_decrement c 1) ^^ 100000) w)"
  using assms
  by (auto simp add: handleMessageFromMain_def Let_def post_count_def Counter_increment_atomic
      Counter_decrement_atomic while_updates_total simp del: funpow.simps)


lemma uint_minus_of_nat_32: "uint (x - of_nat n :: 32 word) = (uint x - int n) mod 4294967296"
  using uint_minus_word_of_int_32 [of x "int n"] by simp

lemma Counter1_value_decrements:
  "Counter1_value (Counter1 (Uint32Array a)) ((Counter1_decrement (Counter1 (Uint32Array a)) 1 ^^ n) w) =
     (Counter1_value (Counter1 (Uint32Array a)) w - int n) mod 2 ^ 32"
proof -
  have "Counter1_decrement (Counter1 (Uint32Array a)) 1 = Counter1_increment (Counter1 (Uint32Array a)) (- 1)"
    by (rule ext) (simp add: Counter1_decrement_def)
  then show ?thesis
    by (simp add: Counter1_value_def get_bits_Counter1_increments uint_minus_of_nat_32)
qed

lemma Counter2_value_decrements:
  "Counter2_value (Counter2 (Uint32Array a)) ((Counter2_decrement (Counter2 (Uint32Array a)) 1 ^^ n) w) =
     (Counter2_value (Counter2 (Uint32Array a)) w - int n) mod 2 ^ 32"
proof -
  have "Counter2_decrement (Counter2 (Uint32Array a)) 1 = Counter2_increment (Counter2 (Uint32Array a)) (- 1)"
    by (rule ext) (simp add: Counter2_decrement_increment)
  then show ?thesis
    by (simp add: Counter2_value_def get_bits_Counter2_increments uint_minus_of_nat_32)
qed

text \<open>
  Claim C1. With example 1 or example 2 as the exported \<^verbatim>\<open>Counter\<close>, on a message whose
  operation is \<^verbatim>\<open>"increment"\<close> or \<^verbatim>\<open>"decrement"\<close> and whose counter buffer is a
  \<^verbatim>\<open>SharedArrayBuffer\<close> of whole 4-byte elements, the handler, run in a single context,
  constructs the counter, leaves the world that 100000 calls of the chosen operation with
  delta 1 leave, returns, and has posted exactly one report, with \<^verbatim>\<open>done\<close> true and as
  count the value of the counter slot in that final world. If the slot held \<open>c\<close> the
  count after \<^verbatim>\<open>"increment"\<close> is \<open>(c + 100000) mod 2 ^ 32\<close>, and after \<^verbatim>\<open>"decrement"\<close>
  it is \<open>(c - 100000) mod 2 ^ 32\<close>.
\<close>

theorem worker_reports_count:
  assumes "whole_elements (sharedCounterBuffer data) w"
    and "operation data = ''increment'' \<or> operation data = ''decrement''"
  shows "\<exists>a. sharedCounterBuffer data = SharedArrayBuffer a \<and>
     (let c = Counter1 (Uint32Array a);
          call = (if operation data = ''increment'' then Counter1_increment c 1
                  else Counter1_decrement c 1);
          w' = (call ^^ 100000) w
      in Counter_new Example1 (sharedCounterBuffer data) w = Inr (NaiveCounter c) \<and>
         handleMessageFromMain Example1 data self w =
           Some (Returns (), [\<lparr>done_flag = True, count = Counter1_value c w'\<rparr>], w') \<and>
         (operation data = ''increment'' \<longrightarrow>
            Counter1_value c w' = (Counter1_value c w + 100000) mod 2 ^ 32) \<and>
         (operation data = ''decrement'' \<longrightarrow>
            Counter1_value c w' = (Counter1_value c w - 100000) mod 2 ^ 32)) \<and>
     (let c = Counter2 (Uint32Array a);
          call = (if operation data = ''increment'' then Counter2_increment c 1
                  else Counter2_decrement c 1);
          w' = (call ^^ 100000) w
      in Counter_new Example2 (sharedCounterBuffer data) w = Inr (AtomicCounter c) \<and>
         handleMessageFromMain Example2 data self w =
           Some (Returns (), [\<lparr>done_flag = True, count = Counter2_value c w'\<rparr>], w') \<and>
         (operation data = ''increment'' \<longrightarrow>
            Counter2_value c w' = (Counter2_value c w + 100000) mod 2 ^ 32) \<and>
         (operation data = ''decrement'' \<longrightarrow>
            Counter2_value c w' = (Counter2_value c w - 100000) mod 2 ^ 32))"
proof -
  from Counter_new_Example1 [OF assms(1)] Counter_new_Example2 [OF assms(1)]
  obtain a where a: "sharedCounterBuffer data = SharedArrayBuffer a"
    and n1: "Counter_new Example1 (sharedCounterBuffer data) w = Inr (NaiveCounter (Counter1 (Uint32Array a)))"
    and n2: "Counter_new Example2 (sharedCounterBuffer data) w = Inr (AtomicCounter (Counter2 (Uint32Array a)))"
    by auto
  have inc1: "Counter1_value (Counter1 (Uint32Array a))
        ((Counter1_increment (Counter1 (Uint32Array a)) 1 ^^ 100000) w) =
      (Counter1_value (Counter1 (Uint32Array a)) w + 100000) mod 2 ^ 32"
    using Counter1_value_increments [of a 100000 w] by simp
  have dec1: "Counter1_value (Counter1 (Uint32Array a))
        ((Counter1_decrement (Counter1 (Uint32Array a)) 1 ^^ 100000) w) =
      (Counter1_value (Counter1 (Uint32Array a)) w - 100000) mod 2 ^ 32"
    using Counter1_value_decrements [of a 100000 w] by simp
  have inc2: "Counter2_value (Counter2 (Uint32Array a))
        ((Counter2_increment (Counter2 (Uint32Array a)) 1 ^^ 100000) w) =
      (Counter2_value (Counter2 (Uint32Array a)) w + 100000) mod 2 ^ 32"
    using Counter2_value_increments [of a 100000 w] by simp
  have dec2: "Counter2_value (Counter2 (Uint32Array a))
        ((Counter2_decrement (Counter2 (Uint32Array a)) 1 ^^ 100000) w) =
      (Counter2_value (Counter2 (Uint32Array a)) w - 100000) mod 2 ^ 32"
    using Counter2_value_decrements [of a 100000 w] by simp
  have "''increment'' \<noteq> ''decrement''" by simp
  with a n1 n2 handle_naive [OF n1 assms(2), of self] handle_atomic [OF n2 assms(2), of self]
    inc1 dec1 inc2 dec2
  show ?thesis
    unfolding Let_def by (intro exI [of _ a]) (simp del: funpow.simps)
qed

text \<open>
  Claim C2. With example 3 as the exported \<^verbatim>\<open>Counter\<close> the handler throws on every
  message, in the construction of the counter, posts nothing and leaves the world as it
  was. When the counter buffer of the message is fit, the error is the
  \<^verbatim>\<open>"Expected a 'SharedArrayBuffer'."\<close> of the \<^verbatim>\<open>Mutex\<close> constructor, which was handed
  \<^verbatim>\<open>undefined\<close>.
\<close>

theorem guarded_worker_throws:
  "\<exists>e. handleMessageFromMain Example3 data self w = Some (Throws e, [], w) \<and>
       Counter_new Example3 (sharedCounterBuffer data) w = Inl e \<and>
       (whole_elements (sharedCounterBuffer data) w \<longrightarrow>
          e = ExpectedSharedArrayBuffer \<and> Mutex_new Undefined w = Inl ExpectedSharedArrayBuffer)"
proof -
  have m: "Mutex_new Undefined w = Inl ExpectedSharedArrayBuffer"
    by (simp add: Mutex_new_def Mutex_ensureSharedArrayBuffer_def)
  have "\<exists>e. Counter3_new (sharedCounterBuffer data) Undefined w = Inl e \<and>
      (whole_elements (sharedCounterBuffer data) w \<longrightarrow> e = ExpectedSharedArrayBuffer)"
    by (auto simp add: Counter3_new_def m whole_elements_def Counter_ensureSharedArrayBuffer_def
        new_Uint32Array_def Uint32Array_BYTES_PER_ELEMENT_def
        split: sum.splits js_value.splits if_splits)
  then show ?thesis
    using m by (auto simp add: handleMessageFromMain_def Counter_new_def)
qed

text \<open>
  Claim C8. On a message whose operation is neither \<^verbatim>\<open>"increment"\<close> nor
  \<^verbatim>\<open>"decrement"\<close> the handler ends, has posted nothing and leaves the world, the counter
  slot with it, as it was, whichever class is exported. If the counter was constructed
  the handler returns; if the construction threw, the handler ends with that error.
\<close>

theorem unknown_operation_is_ignored:
  assumes "operation data \<noteq> ''increment''" and "operation data \<noteq> ''decrement''"
  shows "(\<exists>r. handleMessageFromMain ex data self w = Some (r, [], w)) \<and>
     (\<forall>counter. Counter_new ex (sharedCounterBuffer data) w = Inr counter \<longrightarrow>
        handleMessageFromMain ex data self w = Some (Returns (), [], w)) \<and>
     (\<forall>e. Counter_new ex (sharedCounterBuffer data) w = Inl e \<longrightarrow>
        handleMessageFromMain ex data self w = Some (Throws e, [], w))"
  using assms by (auto simp add: handleMessageFromMain_def split: sum.splits)


theorem worker_reports_count_witness:
  "whole_elements (sharedCounterBuffer (message ''increment'')) fresh_world \<and>
   (\<exists>w'. handleMessageFromMain Example2 (message ''increment'') 0 fresh_world =
      Some (Returns (), [\<lparr>done_flag = True, count = 100000\<rparr>], w')) \<and>
   (\<exists>w'. handleMessageFromMain Example1 (message ''increment'') 0 fresh_world =
      Some (Returns (), [\<lparr>done_flag = True, count = 100000\<rparr>], w'))"
proof -
  have h: "whole_elements (sharedCounterBuffer (message ''increment'')) fresh_world"
    "operation (message ''increment'') = ''increment'' \<or> operation (message ''increment'') = ''decrement''"
    by (simp_all add: message_def whole_elements_def fresh_world_def)
  have v: "Counter1_value (Counter1 (Uint32Array 4)) fresh_world = 0"
    "Counter2_value (Counter2 (Uint32Array 4)) fresh_world = 0"
    by (simp_all add: Counter1_value_def Counter2_value_def get_bits_def fresh_world_def)
  have s: "sharedCounterBuffer (message ''increment'') = SharedArrayBuffer 4"
    "operation (message ''increment'') = ''increment''"
    by (simp_all add: message_def)
  from worker_reports_count [OF h, of 0] s v h(1)
  show ?thesis
    unfolding Let_def by (auto simp del: funpow.simps)
qed

theorem guarded_worker_throws_witness:
  "whole_elements (sharedCounterBuffer (message ''increment'')) fresh_world \<and>
   handleMessageFromMain Example3 (message ''increment'') 0 fresh_world =
     Some (Throws ExpectedSharedArrayBuffer, [], fresh_world)"
proof -
  have h: "whole_elements (sharedCounterBuffer (message ''increment'')) fresh_world"
    by (simp add: message_def whole_elements_def fresh_world_def)
  from guarded_worker_throws [of "message ''increment''" 0 fresh_world] h
  show ?thesis by auto
qed

theorem unknown_operation_is_ignored_witness:
  "operation (message ''reset'') \<noteq> ''increment'' \<and>
   operation (message ''reset'') \<noteq> ''decrement'' \<and>
   Counter_new Example2 (sharedCounterBuffer (message ''reset'')) fresh_world =
     Inr (AtomicCounter (Counter2 (Uint32Array 4))) \<and>
   handleMessageFromMain Example2 (message ''reset'') 0 fresh_world =
     Some (Returns (), [], fresh_world)"
proof -
  have h: "operation (message ''reset'') \<noteq> ''increment''"
    "operation (message ''reset'') \<noteq> ''decrement''"
    by (simp_all add: message_def)
  have n: "Counter_new Example2 (sharedCounterBuffer (message ''reset'')) fresh_world =
     Inr (AtomicCounter (Counter2 (Uint32Array 4)))"
    by (simp add: message_def Counter_new_def Counter2_new_def Counter_ensureSharedArrayBuffer_def
        new_Uint32Array_def Uint32Array_BYTES_PER_ELEMENT_def fresh_world_def)
  from unknown_operation_is_ignored [OF h, of Example2 0 fresh_world] h n
  show ?thesis by simp
qed

section \<open>Several workers\<close>

lemma run_schedule_numUpdates:
  "fst (run_schedule c schedule numUpdates w) a = numUpdates a - count_list schedule a"
  by (induction schedule arbitrary: numUpdates w) auto

lemma sum_step:
  assumes "a < N" and "0 < f a"
  shows "sum (f(a := f a - 1)) {..<N} + 1 = sum (f :: nat \<Rightarrow> nat) {..<(N::nat)}"
proof -
  have fin: "finite {..<N}" and mem: "a \<in> {..<N}"
    using assms by simp_all
  have "sum (f(a := f a - 1)) {..<N} = (f(a := f a - 1)) a + sum (f(a := f a - 1)) ({..<N} - {a})"
    by (rule sum.remove [OF fin mem])
  moreover have "sum (f(a := f a - 1)) ({..<N} - {a}) = sum f ({..<N} - {a})"
    by (rule sum.cong) simp_all
  moreover have "sum f {..<N} = f a + sum f ({..<N} - {a})"
    by (rule sum.remove [OF fin mem])
  moreover have "(f(a := f a - 1)) a + 1 = f a"
    using assms(2) by simp
  ultimately show ?thesis by linarith
qed

lemma run_schedule_bits:
  assumes "\<forall>a. N \<le> a \<longrightarrow> numUpdates a = 0"
  shows "get_bits ac Counter_LOCATION (snd (run_schedule (Counter2 (Uint32Array ac)) schedule numUpdates w))
      + of_nat (sum (fst (run_schedule (Counter2 (Uint32Array ac)) schedule numUpdates w)) {..<N}) =
     get_bits ac Counter_LOCATION w + of_nat (sum numUpdates {..<N})"
  using assms
proof (induction schedule arbitrary: numUpdates w)
  case Nil
  show ?case by (simp only: run_schedule.simps fst_conv snd_conv)
next
  case (Cons a schedule)
  show ?case
  proof (cases "0 < numUpdates a")
    case True
    with Cons.prems have a: "a < N"
      by (metis not_less less_irrefl)
    define n' where "n' = numUpdates(a := numUpdates a - 1)"
    define w' where "w' = Counter2_increment (Counter2 (Uint32Array ac)) 1 w"
    have run: "run_schedule (Counter2 (Uint32Array ac)) (a # schedule) numUpdates w =
        run_schedule (Counter2 (Uint32Array ac)) schedule n' w'"
      using True by (simp add: n'_def w'_def)
    have "\<forall>b. N \<le> b \<longrightarrow> n' b = 0"
      using Cons.prems by (simp add: n'_def)
    from Cons.IH [OF this, of w']
    have "get_bits ac Counter_LOCATION (snd (run_schedule (Counter2 (Uint32Array ac)) schedule n' w'))
      + of_nat (sum (fst (run_schedule (Counter2 (Uint32Array ac)) schedule n' w')) {..<N}) =
      get_bits ac Counter_LOCATION w' + of_nat (sum n' {..<N})" .
    moreover have "get_bits ac Counter_LOCATION w' = get_bits ac Counter_LOCATION w + 1"
      by (simp add: w'_def Counter2_increment_def Let_def get_bits_set_bits ToUint32_def)
    moreover have "sum n' {..<N} + 1 = sum numUpdates {..<N}"
      unfolding n'_def by (rule sum_step [of a N numUpdates, OF a True])
    then have "(of_nat (sum numUpdates {..<N}) :: 32 word) = of_nat (sum n' {..<N}) + 1"
      by (metis of_nat_Suc Suc_eq_plus1 add.commute)
    ultimately show ?thesis
      unfolding run by (simp only: add.assoc add.commute add.left_commute)
  next
    case False
    then have "run_schedule (Counter2 (Uint32Array ac)) (a # schedule) numUpdates w =
        run_schedule (Counter2 (Uint32Array ac)) schedule numUpdates w"
      by simp
    with Cons.IH [OF Cons.prems, of w] show ?thesis by (simp only:)
  qed
qed

lemma all_done_iff: "all_done N numUpdates \<longleftrightarrow> (\<forall>a<N. numUpdates a = 0)"
  by (auto simp add: all_done_def list_all_iff)

lemma sum_workers: "sum (workers N K) {..<N} = N * K"
  by (simp add: workers_def)

lemma run_schedule_value:
  assumes "all_done N (fst (run_schedule c schedule (workers N K) w))"
  shows "Counter2_value c (snd (run_schedule c schedule (workers N K) w)) =
     (Counter2_value c w + int (N * K)) mod 2 ^ 32"
proof -
  obtain ac where c: "c = Counter2 (Uint32Array ac)"
    by (metis counter2.exhaust uint32_array.exhaust)
  have "\<forall>a. N \<le> a \<longrightarrow> workers N K a = 0"
    by (simp add: workers_def)
  from run_schedule_bits [OF this, of ac schedule w] assms
  have "get_bits ac Counter_LOCATION (snd (run_schedule c schedule (workers N K) w)) =
      get_bits ac Counter_LOCATION w + of_nat (N * K)"
    by (simp add: c all_done_iff sum_workers)
  then show ?thesis
    by (simp add: c Counter2_value_def uint_plus_of_nat_32 del: of_nat_mult)
qed

lemma count_list_replicate_eq: "count_list (replicate n x) y = (if x = y then n else 0)"
  by (induction n) auto

lemma count_list_concat_replicate:
  "count_list (concat (map (replicate K) [0..<N])) a = (if a < N then K else 0)"
  by (induction N) (auto simp add: count_list_replicate_eq)

lemma in_turn_all_done: "all_done N (fst (run_schedule c (in_turn N K) (workers N K) w))"
  by (simp add: all_done_iff run_schedule_numUpdates in_turn_def count_list_concat_replicate
      workers_def)

text \<open>
  Claim C10, amended. \<open>N\<close> workers with \<open>K\<close> atomic increments each, on a counter that
  holds 0: whatever the schedule, once every worker is done the counter holds
  \<open>N * K mod 2 ^ 32\<close>, which is \<open>N * K\<close> exactly when \<open>N * K < 2 ^ 32\<close>. No increment
  is lost; the slot wraps.
\<close>

theorem atomic_increments_modulo:
  assumes "all_done N (fst (run_schedule c schedule (workers N K) w))"
    and "Counter2_value c w = 0"
  shows "Counter2_value c (snd (run_schedule c schedule (workers N K) w)) = int (N * K) mod 2 ^ 32 \<and>
    (N * K < 2 ^ 32 \<longrightarrow>
      Counter2_value c (snd (run_schedule c schedule (workers N K) w)) = int (N * K))"
proof -
  have v: "Counter2_value c (snd (run_schedule c schedule (workers N K) w)) = int (N * K) mod 2 ^ 32"
    using run_schedule_value [OF assms(1)] assms(2) by simp
  have "int (N * K) mod 2 ^ 32 = int (N * K)" if "N * K < 2 ^ 32"
  proof -
    from that have "int (N * K) < 2 ^ 32"
      by (metis of_nat_less_iff of_nat_numeral of_nat_power)
    then show ?thesis by simp
  qed
  with v show ?thesis by simp
qed


theorem atomic_increments_modulo_witness:
  "all_done 2 (fst (run_schedule (Counter2 (Uint32Array 4)) [0, 1, 1, 0, 1, 0] (workers 2 3) fresh_world)) \<and>
   Counter2_value (Counter2 (Uint32Array 4)) fresh_world = 0 \<and>
   (2::nat) * 3 < 2 ^ 32 \<and>
   Counter2_value (Counter2 (Uint32Array 4))
     (snd (run_schedule (Counter2 (Uint32Array 4)) [0, 1, 1, 0, 1, 0] (workers 2 3) fresh_world)) = 6"
proof -
  have d: "all_done 2 (fst (run_schedule (Counter2 (Uint32Array 4)) [0, 1, 1, 0, 1, 0] (workers 2 3) fresh_world))"
    by (simp add: all_done_iff run_schedule_numUpdates workers_def)
  have z: "Counter2_value (Counter2 (Uint32Array 4)) fresh_world = 0"
    by (simp add: Counter2_value_def get_bits_def fresh_world_def)
  from atomic_increments_modulo [OF d z] d z show ?thesis by simp
qed

text \<open>
  The claim as it stands, \<open>N * K\<close> for every \<open>N\<close> and \<open>K\<close>, fails for 42950 workers
  with the 100000 increments of the worker each: run one after the other they are all
  done, and the counter holds 32704.
\<close>

theorem atomic_increments_wrap:
  "all_done 42950
     (fst (run_schedule (Counter2 (Uint32Array 4)) (in_turn 42950 100000) (workers 42950 100000)
        fresh_world)) \<and>
   Counter2_value (Counter2 (Uint32Array 4)) fresh_world = 0 \<and>
   Counter2_value (Counter2 (Uint32Array 4))
     (snd (run_schedule (Counter2 (Uint32Array 4)) (in_turn 42950 100000) (workers 42950 100000)
        fresh_world)) = 32704 \<and>
   (32704 :: int) \<noteq> 42950 * 100000"
proof -
  have d: "all_done 42950
     (fst (run_schedule (Counter2 (Uint32Array 4)) (in_turn 42950 100000) (workers 42950 100000)
        fresh_world))"
    by (rule in_turn_all_done)
  have z: "Counter2_value (Counter2 (Uint32Array 4)) fresh_world = 0"
    by (simp add: Counter2_value_def get_bits_def fresh_world_def)
  from run_schedule_value [OF d] z d show ?thesis by simp
qed


end
